theory Spec2Isabelle
  imports Main
begin

section \<open>Characters and strings of the analyzer\<close>

text \<open>
  The analyzer works on Python \<open>str\<close> values: sequences of Unicode code points. A code
  point is a \<^typ>\<open>nat\<close> and a text a list of them, so \<^const>\<open>length\<close> counts code
  points as Python's \<open>len\<close> does. \<open>str\<close> turns a literal into a text. The character
  tests below are CPython's (3.11, Unicode 14.0.0) over all code points.
\<close>

type_synonym ustring = "nat list"

definition code :: "char \<Rightarrow> nat" where
  "code c = of_char c"

definition str :: "string \<Rightarrow> ustring" where
  "str s = map code s"

text \<open>\<open>Py_UNICODE_ISSPACE\<close>: used by \<open>str.strip\<close> and by the pattern class \<open>\s\<close>.\<close>

definition is_space :: "nat \<Rightarrow> bool" where
  "is_space c = ((9 \<le> c \<and> c \<le> 13) \<or> (28 \<le> c \<and> c \<le> 32) \<or> c = 0x85 \<or> c = 0xA0
                 \<or> c = 0x1680 \<or> (0x2000 \<le> c \<and> c \<le> 0x200A) \<or> c = 0x2028 \<or> c = 0x2029
                 \<or> c = 0x202F \<or> c = 0x205F \<or> c = 0x3000)"

text \<open>
  Line boundaries of \<open>str.splitlines\<close>: LF, VT, FF, CR, FS, GS, RS, NEL, LINE SEPARATOR and
  PARAGRAPH SEPARATOR.
\<close>

definition is_linebreak :: "nat \<Rightarrow> bool" where
  "is_linebreak c = ((10 \<le> c \<and> c \<le> 13) \<or> (28 \<le> c \<and> c \<le> 30) \<or> c = 0x85
                     \<or> c = 0x2028 \<or> c = 0x2029)"

text \<open>
  \<open>str.isupper\<close> on a one-character string: \<open>A\<close> to \<open>Z\<close>, and beyond ASCII the code points
  in the ranges of \<open>upper_ranges\<close> (both ends included).
\<close>

fun in_ranges :: "(nat \<times> nat) list \<Rightarrow> nat \<Rightarrow> bool" where
  "in_ranges [] c = False"
| "in_ranges ((a, b) # rs) c = ((a \<le> c \<and> c \<le> b) \<or> in_ranges rs c)"

definition upper_ranges :: "(nat \<times> nat) list" where
  "upper_ranges = [
    (0xC0, 0xD6), (0xD8, 0xDE), (0x100, 0x100), (0x102, 0x102), (0x104, 0x104), (0x106, 0x106),
    (0x108, 0x108), (0x10A, 0x10A), (0x10C, 0x10C), (0x10E, 0x10E), (0x110, 0x110),
    (0x112, 0x112), (0x114, 0x114), (0x116, 0x116), (0x118, 0x118), (0x11A, 0x11A),
    (0x11C, 0x11C), (0x11E, 0x11E), (0x120, 0x120), (0x122, 0x122), (0x124, 0x124),
    (0x126, 0x126), (0x128, 0x128), (0x12A, 0x12A), (0x12C, 0x12C), (0x12E, 0x12E),
    (0x130, 0x130), (0x132, 0x132), (0x134, 0x134), (0x136, 0x136), (0x139, 0x139),
    (0x13B, 0x13B), (0x13D, 0x13D), (0x13F, 0x13F), (0x141, 0x141), (0x143, 0x143),
    (0x145, 0x145), (0x147, 0x147), (0x14A, 0x14A), (0x14C, 0x14C), (0x14E, 0x14E),
    (0x150, 0x150), (0x152, 0x152), (0x154, 0x154), (0x156, 0x156), (0x158, 0x158),
    (0x15A, 0x15A), (0x15C, 0x15C), (0x15E, 0x15E), (0x160, 0x160), (0x162, 0x162),
    (0x164, 0x164), (0x166, 0x166), (0x168, 0x168), (0x16A, 0x16A), (0x16C, 0x16C),
    (0x16E, 0x16E), (0x170, 0x170), (0x172, 0x172), (0x174, 0x174), (0x176, 0x176),
    (0x178, 0x179), (0x17B, 0x17B), (0x17D, 0x17D), (0x181, 0x182), (0x184, 0x184),
    (0x186, 0x187), (0x189, 0x18B), (0x18E, 0x191), (0x193, 0x194), (0x196, 0x198),
    (0x19C, 0x19D), (0x19F, 0x1A0), (0x1A2, 0x1A2), (0x1A4, 0x1A4), (0x1A6, 0x1A7),
    (0x1A9, 0x1A9), (0x1AC, 0x1AC), (0x1AE, 0x1AF), (0x1B1, 0x1B3), (0x1B5, 0x1B5),
    (0x1B7, 0x1B8), (0x1BC, 0x1BC), (0x1C4, 0x1C4), (0x1C7, 0x1C7), (0x1CA, 0x1CA),
    (0x1CD, 0x1CD), (0x1CF, 0x1CF), (0x1D1, 0x1D1), (0x1D3, 0x1D3), (0x1D5, 0x1D5),
    (0x1D7, 0x1D7), (0x1D9, 0x1D9), (0x1DB, 0x1DB), (0x1DE, 0x1DE), (0x1E0, 0x1E0),
    (0x1E2, 0x1E2), (0x1E4, 0x1E4), (0x1E6, 0x1E6), (0x1E8, 0x1E8), (0x1EA, 0x1EA),
    (0x1EC, 0x1EC), (0x1EE, 0x1EE), (0x1F1, 0x1F1), (0x1F4, 0x1F4), (0x1F6, 0x1F8),
    (0x1FA, 0x1FA), (0x1FC, 0x1FC), (0x1FE, 0x1FE), (0x200, 0x200), (0x202, 0x202),
    (0x204, 0x204), (0x206, 0x206), (0x208, 0x208), (0x20A, 0x20A), (0x20C, 0x20C),
    (0x20E, 0x20E), (0x210, 0x210), (0x212, 0x212), (0x214, 0x214), (0x216, 0x216),
    (0x218, 0x218), (0x21A, 0x21A), (0x21C, 0x21C), (0x21E, 0x21E), (0x220, 0x220),
    (0x222, 0x222), (0x224, 0x224), (0x226, 0x226), (0x228, 0x228), (0x22A, 0x22A),
    (0x22C, 0x22C), (0x22E, 0x22E), (0x230, 0x230), (0x232, 0x232), (0x23A, 0x23B),
    (0x23D, 0x23E), (0x241, 0x241), (0x243, 0x246), (0x248, 0x248), (0x24A, 0x24A),
    (0x24C, 0x24C), (0x24E, 0x24E), (0x370, 0x370), (0x372, 0x372), (0x376, 0x376),
    (0x37F, 0x37F), (0x386, 0x386), (0x388, 0x38A), (0x38C, 0x38C), (0x38E, 0x38F),
    (0x391, 0x3A1), (0x3A3, 0x3AB), (0x3CF, 0x3CF), (0x3D2, 0x3D4), (0x3D8, 0x3D8),
    (0x3DA, 0x3DA), (0x3DC, 0x3DC), (0x3DE, 0x3DE), (0x3E0, 0x3E0), (0x3E2, 0x3E2),
    (0x3E4, 0x3E4), (0x3E6, 0x3E6), (0x3E8, 0x3E8), (0x3EA, 0x3EA), (0x3EC, 0x3EC),
    (0x3EE, 0x3EE), (0x3F4, 0x3F4), (0x3F7, 0x3F7), (0x3F9, 0x3FA), (0x3FD, 0x42F),
    (0x460, 0x460), (0x462, 0x462), (0x464, 0x464), (0x466, 0x466), (0x468, 0x468),
    (0x46A, 0x46A), (0x46C, 0x46C), (0x46E, 0x46E), (0x470, 0x470), (0x472, 0x472),
    (0x474, 0x474), (0x476, 0x476), (0x478, 0x478), (0x47A, 0x47A), (0x47C, 0x47C),
    (0x47E, 0x47E), (0x480, 0x480), (0x48A, 0x48A), (0x48C, 0x48C), (0x48E, 0x48E),
    (0x490, 0x490), (0x492, 0x492), (0x494, 0x494), (0x496, 0x496), (0x498, 0x498),
    (0x49A, 0x49A), (0x49C, 0x49C), (0x49E, 0x49E), (0x4A0, 0x4A0), (0x4A2, 0x4A2),
    (0x4A4, 0x4A4), (0x4A6, 0x4A6), (0x4A8, 0x4A8), (0x4AA, 0x4AA), (0x4AC, 0x4AC),
    (0x4AE, 0x4AE), (0x4B0, 0x4B0), (0x4B2, 0x4B2), (0x4B4, 0x4B4), (0x4B6, 0x4B6),
    (0x4B8, 0x4B8), (0x4BA, 0x4BA), (0x4BC, 0x4BC), (0x4BE, 0x4BE), (0x4C0, 0x4C1),
    (0x4C3, 0x4C3), (0x4C5, 0x4C5), (0x4C7, 0x4C7), (0x4C9, 0x4C9), (0x4CB, 0x4CB),
    (0x4CD, 0x4CD), (0x4D0, 0x4D0), (0x4D2, 0x4D2), (0x4D4, 0x4D4), (0x4D6, 0x4D6),
    (0x4D8, 0x4D8), (0x4DA, 0x4DA), (0x4DC, 0x4DC), (0x4DE, 0x4DE), (0x4E0, 0x4E0),
    (0x4E2, 0x4E2), (0x4E4, 0x4E4), (0x4E6, 0x4E6), (0x4E8, 0x4E8), (0x4EA, 0x4EA),
    (0x4EC, 0x4EC), (0x4EE, 0x4EE), (0x4F0, 0x4F0), (0x4F2, 0x4F2), (0x4F4, 0x4F4),
    (0x4F6, 0x4F6), (0x4F8, 0x4F8), (0x4FA, 0x4FA), (0x4FC, 0x4FC), (0x4FE, 0x4FE),
    (0x500, 0x500), (0x502, 0x502), (0x504, 0x504), (0x506, 0x506), (0x508, 0x508),
    (0x50A, 0x50A), (0x50C, 0x50C), (0x50E, 0x50E), (0x510, 0x510), (0x512, 0x512),
    (0x514, 0x514), (0x516, 0x516), (0x518, 0x518), (0x51A, 0x51A), (0x51C, 0x51C),
    (0x51E, 0x51E), (0x520, 0x520), (0x522, 0x522), (0x524, 0x524), (0x526, 0x526),
    (0x528, 0x528), (0x52A, 0x52A), (0x52C, 0x52C), (0x52E, 0x52E), (0x531, 0x556),
    (0x10A0, 0x10C5), (0x10C7, 0x10C7), (0x10CD, 0x10CD), (0x13A0, 0x13F5), (0x1C90, 0x1CBA),
    (0x1CBD, 0x1CBF), (0x1E00, 0x1E00), (0x1E02, 0x1E02), (0x1E04, 0x1E04), (0x1E06, 0x1E06),
    (0x1E08, 0x1E08), (0x1E0A, 0x1E0A), (0x1E0C, 0x1E0C), (0x1E0E, 0x1E0E), (0x1E10, 0x1E10),
    (0x1E12, 0x1E12), (0x1E14, 0x1E14), (0x1E16, 0x1E16), (0x1E18, 0x1E18), (0x1E1A, 0x1E1A),
    (0x1E1C, 0x1E1C), (0x1E1E, 0x1E1E), (0x1E20, 0x1E20), (0x1E22, 0x1E22), (0x1E24, 0x1E24),
    (0x1E26, 0x1E26), (0x1E28, 0x1E28), (0x1E2A, 0x1E2A), (0x1E2C, 0x1E2C), (0x1E2E, 0x1E2E),
    (0x1E30, 0x1E30), (0x1E32, 0x1E32), (0x1E34, 0x1E34), (0x1E36, 0x1E36), (0x1E38, 0x1E38),
    (0x1E3A, 0x1E3A), (0x1E3C, 0x1E3C), (0x1E3E, 0x1E3E), (0x1E40, 0x1E40), (0x1E42, 0x1E42),
    (0x1E44, 0x1E44), (0x1E46, 0x1E46), (0x1E48, 0x1E48), (0x1E4A, 0x1E4A), (0x1E4C, 0x1E4C),
    (0x1E4E, 0x1E4E), (0x1E50, 0x1E50), (0x1E52, 0x1E52), (0x1E54, 0x1E54), (0x1E56, 0x1E56),
    (0x1E58, 0x1E58), (0x1E5A, 0x1E5A), (0x1E5C, 0x1E5C), (0x1E5E, 0x1E5E), (0x1E60, 0x1E60),
    (0x1E62, 0x1E62), (0x1E64, 0x1E64), (0x1E66, 0x1E66), (0x1E68, 0x1E68), (0x1E6A, 0x1E6A),
    (0x1E6C, 0x1E6C), (0x1E6E, 0x1E6E), (0x1E70, 0x1E70), (0x1E72, 0x1E72), (0x1E74, 0x1E74),
    (0x1E76, 0x1E76), (0x1E78, 0x1E78), (0x1E7A, 0x1E7A), (0x1E7C, 0x1E7C), (0x1E7E, 0x1E7E),
    (0x1E80, 0x1E80), (0x1E82, 0x1E82), (0x1E84, 0x1E84), (0x1E86, 0x1E86), (0x1E88, 0x1E88),
    (0x1E8A, 0x1E8A), (0x1E8C, 0x1E8C), (0x1E8E, 0x1E8E), (0x1E90, 0x1E90), (0x1E92, 0x1E92),
    (0x1E94, 0x1E94), (0x1E9E, 0x1E9E), (0x1EA0, 0x1EA0), (0x1EA2, 0x1EA2), (0x1EA4, 0x1EA4),
    (0x1EA6, 0x1EA6), (0x1EA8, 0x1EA8), (0x1EAA, 0x1EAA), (0x1EAC, 0x1EAC), (0x1EAE, 0x1EAE),
    (0x1EB0, 0x1EB0), (0x1EB2, 0x1EB2), (0x1EB4, 0x1EB4), (0x1EB6, 0x1EB6), (0x1EB8, 0x1EB8),
    (0x1EBA, 0x1EBA), (0x1EBC, 0x1EBC), (0x1EBE, 0x1EBE), (0x1EC0, 0x1EC0), (0x1EC2, 0x1EC2),
    (0x1EC4, 0x1EC4), (0x1EC6, 0x1EC6), (0x1EC8, 0x1EC8), (0x1ECA, 0x1ECA), (0x1ECC, 0x1ECC),
    (0x1ECE, 0x1ECE), (0x1ED0, 0x1ED0), (0x1ED2, 0x1ED2), (0x1ED4, 0x1ED4), (0x1ED6, 0x1ED6),
    (0x1ED8, 0x1ED8), (0x1EDA, 0x1EDA), (0x1EDC, 0x1EDC), (0x1EDE, 0x1EDE), (0x1EE0, 0x1EE0),
    (0x1EE2, 0x1EE2), (0x1EE4, 0x1EE4), (0x1EE6, 0x1EE6), (0x1EE8, 0x1EE8), (0x1EEA, 0x1EEA),
    (0x1EEC, 0x1EEC), (0x1EEE, 0x1EEE), (0x1EF0, 0x1EF0), (0x1EF2, 0x1EF2), (0x1EF4, 0x1EF4),
    (0x1EF6, 0x1EF6), (0x1EF8, 0x1EF8), (0x1EFA, 0x1EFA), (0x1EFC, 0x1EFC), (0x1EFE, 0x1EFE),
    (0x1F08, 0x1F0F), (0x1F18, 0x1F1D), (0x1F28, 0x1F2F), (0x1F38, 0x1F3F), (0x1F48, 0x1F4D),
    (0x1F59, 0x1F59), (0x1F5B, 0x1F5B), (0x1F5D, 0x1F5D), (0x1F5F, 0x1F5F), (0x1F68, 0x1F6F),
    (0x1FB8, 0x1FBB), (0x1FC8, 0x1FCB), (0x1FD8, 0x1FDB), (0x1FE8, 0x1FEC), (0x1FF8, 0x1FFB),
    (0x2102, 0x2102), (0x2107, 0x2107), (0x210B, 0x210D), (0x2110, 0x2112), (0x2115, 0x2115),
    (0x2119, 0x211D), (0x2124, 0x2124), (0x2126, 0x2126), (0x2128, 0x2128), (0x212A, 0x212D),
    (0x2130, 0x2133), (0x213E, 0x213F), (0x2145, 0x2145), (0x2160, 0x216F), (0x2183, 0x2183),
    (0x24B6, 0x24CF), (0x2C00, 0x2C2F), (0x2C60, 0x2C60), (0x2C62, 0x2C64), (0x2C67, 0x2C67),
    (0x2C69, 0x2C69), (0x2C6B, 0x2C6B), (0x2C6D, 0x2C70), (0x2C72, 0x2C72), (0x2C75, 0x2C75),
    (0x2C7E, 0x2C80), (0x2C82, 0x2C82), (0x2C84, 0x2C84), (0x2C86, 0x2C86), (0x2C88, 0x2C88),
    (0x2C8A, 0x2C8A), (0x2C8C, 0x2C8C), (0x2C8E, 0x2C8E), (0x2C90, 0x2C90), (0x2C92, 0x2C92),
    (0x2C94, 0x2C94), (0x2C96, 0x2C96), (0x2C98, 0x2C98), (0x2C9A, 0x2C9A), (0x2C9C, 0x2C9C),
    (0x2C9E, 0x2C9E), (0x2CA0, 0x2CA0), (0x2CA2, 0x2CA2), (0x2CA4, 0x2CA4), (0x2CA6, 0x2CA6),
    (0x2CA8, 0x2CA8), (0x2CAA, 0x2CAA), (0x2CAC, 0x2CAC), (0x2CAE, 0x2CAE), (0x2CB0, 0x2CB0),
    (0x2CB2, 0x2CB2), (0x2CB4, 0x2CB4), (0x2CB6, 0x2CB6), (0x2CB8, 0x2CB8), (0x2CBA, 0x2CBA),
    (0x2CBC, 0x2CBC), (0x2CBE, 0x2CBE), (0x2CC0, 0x2CC0), (0x2CC2, 0x2CC2), (0x2CC4, 0x2CC4),
    (0x2CC6, 0x2CC6), (0x2CC8, 0x2CC8), (0x2CCA, 0x2CCA), (0x2CCC, 0x2CCC), (0x2CCE, 0x2CCE),
    (0x2CD0, 0x2CD0), (0x2CD2, 0x2CD2), (0x2CD4, 0x2CD4), (0x2CD6, 0x2CD6), (0x2CD8, 0x2CD8),
    (0x2CDA, 0x2CDA), (0x2CDC, 0x2CDC), (0x2CDE, 0x2CDE), (0x2CE0, 0x2CE0), (0x2CE2, 0x2CE2),
    (0x2CEB, 0x2CEB), (0x2CED, 0x2CED), (0x2CF2, 0x2CF2), (0xA640, 0xA640), (0xA642, 0xA642),
    (0xA644, 0xA644), (0xA646, 0xA646), (0xA648, 0xA648), (0xA64A, 0xA64A), (0xA64C, 0xA64C),
    (0xA64E, 0xA64E), (0xA650, 0xA650), (0xA652, 0xA652), (0xA654, 0xA654), (0xA656, 0xA656),
    (0xA658, 0xA658), (0xA65A, 0xA65A), (0xA65C, 0xA65C), (0xA65E, 0xA65E), (0xA660, 0xA660),
    (0xA662, 0xA662), (0xA664, 0xA664), (0xA666, 0xA666), (0xA668, 0xA668), (0xA66A, 0xA66A),
    (0xA66C, 0xA66C), (0xA680, 0xA680), (0xA682, 0xA682), (0xA684, 0xA684), (0xA686, 0xA686),
    (0xA688, 0xA688), (0xA68A, 0xA68A), (0xA68C, 0xA68C), (0xA68E, 0xA68E), (0xA690, 0xA690),
    (0xA692, 0xA692), (0xA694, 0xA694), (0xA696, 0xA696), (0xA698, 0xA698), (0xA69A, 0xA69A),
    (0xA722, 0xA722), (0xA724, 0xA724), (0xA726, 0xA726), (0xA728, 0xA728), (0xA72A, 0xA72A),
    (0xA72C, 0xA72C), (0xA72E, 0xA72E), (0xA732, 0xA732), (0xA734, 0xA734), (0xA736, 0xA736),
    (0xA738, 0xA738), (0xA73A, 0xA73A), (0xA73C, 0xA73C), (0xA73E, 0xA73E), (0xA740, 0xA740),
    (0xA742, 0xA742), (0xA744, 0xA744), (0xA746, 0xA746), (0xA748, 0xA748), (0xA74A, 0xA74A),
    (0xA74C, 0xA74C), (0xA74E, 0xA74E), (0xA750, 0xA750), (0xA752, 0xA752), (0xA754, 0xA754),
    (0xA756, 0xA756), (0xA758, 0xA758), (0xA75A, 0xA75A), (0xA75C, 0xA75C), (0xA75E, 0xA75E),
    (0xA760, 0xA760), (0xA762, 0xA762), (0xA764, 0xA764), (0xA766, 0xA766), (0xA768, 0xA768),
    (0xA76A, 0xA76A), (0xA76C, 0xA76C), (0xA76E, 0xA76E), (0xA779, 0xA779), (0xA77B, 0xA77B),
    (0xA77D, 0xA77E), (0xA780, 0xA780), (0xA782, 0xA782), (0xA784, 0xA784), (0xA786, 0xA786),
    (0xA78B, 0xA78B), (0xA78D, 0xA78D), (0xA790, 0xA790), (0xA792, 0xA792), (0xA796, 0xA796),
    (0xA798, 0xA798), (0xA79A, 0xA79A), (0xA79C, 0xA79C), (0xA79E, 0xA79E), (0xA7A0, 0xA7A0),
    (0xA7A2, 0xA7A2), (0xA7A4, 0xA7A4), (0xA7A6, 0xA7A6), (0xA7A8, 0xA7A8), (0xA7AA, 0xA7AE),
    (0xA7B0, 0xA7B4), (0xA7B6, 0xA7B6), (0xA7B8, 0xA7B8), (0xA7BA, 0xA7BA), (0xA7BC, 0xA7BC),
    (0xA7BE, 0xA7BE), (0xA7C0, 0xA7C0), (0xA7C2, 0xA7C2), (0xA7C4, 0xA7C7), (0xA7C9, 0xA7C9),
    (0xA7D0, 0xA7D0), (0xA7D6, 0xA7D6), (0xA7D8, 0xA7D8), (0xA7F5, 0xA7F5), (0xFF21, 0xFF3A),
    (0x10400, 0x10427), (0x104B0, 0x104D3), (0x10570, 0x1057A), (0x1057C, 0x1058A),
    (0x1058C, 0x10592), (0x10594, 0x10595), (0x10C80, 0x10CB2), (0x118A0, 0x118BF),
    (0x16E40, 0x16E5F), (0x1D400, 0x1D419), (0x1D434, 0x1D44D), (0x1D468, 0x1D481),
    (0x1D49C, 0x1D49C), (0x1D49E, 0x1D49F), (0x1D4A2, 0x1D4A2), (0x1D4A5, 0x1D4A6),
    (0x1D4A9, 0x1D4AC), (0x1D4AE, 0x1D4B5), (0x1D4D0, 0x1D4E9), (0x1D504, 0x1D505),
    (0x1D507, 0x1D50A), (0x1D50D, 0x1D514), (0x1D516, 0x1D51C), (0x1D538, 0x1D539),
    (0x1D53B, 0x1D53E), (0x1D540, 0x1D544), (0x1D546, 0x1D546), (0x1D54A, 0x1D550),
    (0x1D56C, 0x1D585), (0x1D5A0, 0x1D5B9), (0x1D5D4, 0x1D5ED), (0x1D608, 0x1D621),
    (0x1D63C, 0x1D655), (0x1D670, 0x1D689), (0x1D6A8, 0x1D6C0), (0x1D6E2, 0x1D6FA),
    (0x1D71C, 0x1D734), (0x1D756, 0x1D76E), (0x1D790, 0x1D7A8), (0x1D7CA, 0x1D7CA),
    (0x1E900, 0x1E921), (0x1F130, 0x1F149), (0x1F150, 0x1F169), (0x1F170, 0x1F189)]"

definition is_upper :: "nat \<Rightarrow> bool" where
  "is_upper c = (if c < 128 then 65 \<le> c \<and> c \<le> 90 else in_ranges upper_ranges c)"

text \<open>
  Case folding as IGNORECASE applies it to a pattern whose literals and classes are ASCII,
  as those of the analyzer are. \<open>ci_fold\<close> sends a code point to the lowercase ASCII letter it
  is matched as: an uppercase ASCII letter to its lowercase, LATIN CAPITAL LETTER I WITH
  DOT ABOVE (U+0130) and LATIN SMALL LETTER DOTLESS I (U+0131) to \<open>i\<close>, LATIN SMALL LETTER
  LONG S (U+017F) to \<open>s\<close>, KELVIN SIGN (U+212A) to \<open>k\<close>; every other code point is left
  alone. \<open>ci_unfold\<close> is the uppercase of a lowercase ASCII letter.
\<close>

definition ci_fold :: "nat \<Rightarrow> nat" where
  "ci_fold c = (if 65 \<le> c \<and> c \<le> 90 then c + 32
             else if c = 0x130 \<or> c = 0x131 then 105
             else if c = 0x17F then 115
             else if c = 0x212A then 107
             else c)"

definition ci_unfold :: "nat \<Rightarrow> nat" where
  "ci_unfold c = (if 97 \<le> c \<and> c \<le> 122 then c - 32 else c)"

definition LF :: nat where
  "LF = 10"

definition CR :: nat where
  "CR = 13"

definition strip :: "ustring \<Rightarrow> ustring" where
  "strip s = rev (dropWhile is_space (rev (dropWhile is_space s)))"

fun splitlines :: "ustring \<Rightarrow> ustring list" where
  "splitlines [] = []"
| "splitlines [c] = (if is_linebreak c then [[]] else [[c]])"
| "splitlines (c # d # cs) =
     (if c = CR \<and> d = LF then [] # splitlines cs
      else if is_linebreak c then [] # splitlines (d # cs)
      else (case splitlines (d # cs) of [] \<Rightarrow> [[c]] | l # ls \<Rightarrow> (c # l) # ls))"

text \<open>\<open>"\n".join(xs)\<close>\<close>

fun join_nl :: "ustring list \<Rightarrow> ustring" where
  "join_nl [] = []"
| "join_nl [x] = x"
| "join_nl (x # y # ys) = x @ LF # join_nl (y # ys)"

section \<open>Regular expressions as compiled with \<open>(?im)\<close>\<close>

text \<open>
  Members of a bracket class, the one-character matchers, and the patterns built from
  them. Every pattern of the analyzer carries the flags IGNORECASE and MULTILINE, so the
  matcher below has them built in.
\<close>

datatype cset = CChar nat | CRange nat nat | CSpace

datatype atom = Lit nat | AnyChar | In "cset list"

datatype rx =
    Atom atom
  | Bol
  | Eol
  | Empty
  | Seq rx rx
  | Alt rx rx
  | Opt rx
  | Rep atom nat "nat option"
  | Group rx

fun cset_match :: "cset \<Rightarrow> nat \<Rightarrow> bool" where
  "cset_match (CChar a) c = (c = a)"
| "cset_match (CRange a b) c = (a \<le> c \<and> c \<le> b)"
| "cset_match CSpace c = is_space c"

text \<open>
  Under IGNORECASE a literal matches the code points that fold as it does, and a class
  matches a code point when the code point or one of its case variants is a member. \<open>.\<close>
  matches anything but a line feed.
\<close>

definition variants :: "nat \<Rightarrow> nat list" where
  "variants c = [c, ci_fold c, ci_unfold (ci_fold c)]"

fun atom_match :: "atom \<Rightarrow> nat \<Rightarrow> bool" where
  "atom_match (Lit a) c = (ci_fold c = ci_fold a)"
| "atom_match AnyChar c = (c \<noteq> LF)"
| "atom_match (In items) c = (\<exists>i \<in> set items. \<exists>v \<in> set (variants c). cset_match i v)"

text \<open>
  A matcher position: the character just before it (\<open>None\<close> at the start of the text),
  the text still ahead, and the content of group 1 once it has been closed.
\<close>

record mstate =
  prev :: "nat option"
  rest :: ustring
  cap :: "ustring option"

text \<open>
  Greedy repetition of a one-character matcher between \<open>lo\<close> and \<open>hi\<close> times: the
  positions it can stop at, longest first, which is the order a backtracking matcher
  tries them in.
\<close>

fun rep :: "atom \<Rightarrow> nat \<Rightarrow> nat option \<Rightarrow> nat option \<Rightarrow> ustring \<Rightarrow> (nat option \<times> ustring) list" where
  "rep a lo hi p [] = (if lo = 0 then [(p, [])] else [])"
| "rep a lo hi p (c # cs) =
     (if hi \<noteq> Some 0 \<and> atom_match a c
      then rep a (lo - 1) (map_option (\<lambda>h. h - 1) hi) (Some c) cs else [])
     @ (if lo = 0 then [(p, c # cs)] else [])"

text \<open>
  All ways a pattern can match at a position, in the order a backtracking matcher finds
  them: first alternative first, optional parts taken before skipped.
\<close>

fun ms :: "rx \<Rightarrow> mstate \<Rightarrow> mstate list" where
  "ms (Atom a) st =
     (case rest st of
        [] \<Rightarrow> []
      | c # cs \<Rightarrow> if atom_match a c then [st\<lparr>prev := Some c, rest := cs\<rparr>] else [])"
| "ms Bol st = (if prev st = None \<or> prev st = Some LF then [st] else [])"
| "ms Eol st = (case rest st of [] \<Rightarrow> [st] | c # cs \<Rightarrow> if c = LF then [st] else [])"
| "ms Empty st = [st]"
| "ms (Seq a b) st = concat (map (ms b) (ms a st))"
| "ms (Alt a b) st = ms a st @ ms b st"
| "ms (Opt r) st = ms r st @ [st]"
| "ms (Rep a lo hi) st = map (\<lambda>(p, s). st\<lparr>prev := p, rest := s\<rparr>) (rep a lo hi (prev st) (rest st))"
| "ms (Group r) st =
     map (\<lambda>st'. st'\<lparr>cap := Some (take (length (rest st) - length (rest st')) (rest st))\<rparr>)
         (ms r st)"

text \<open>\<open>pattern.search\<close>: the first match at the leftmost position that has one.\<close>

fun search :: "rx \<Rightarrow> nat option \<Rightarrow> ustring \<Rightarrow> mstate option" where
  "search r p [] =
     (case ms r \<lparr>prev = p, rest = [], cap = None\<rparr> of [] \<Rightarrow> None | st # _ \<Rightarrow> Some st)"
| "search r p (c # cs) =
     (case ms r \<lparr>prev = p, rest = c # cs, cap = None\<rparr> of
        [] \<Rightarrow> search r (Some c) cs
      | st # _ \<Rightarrow> Some st)"

subsection \<open>The four patterns\<close>

definition lits :: "ustring \<Rightarrow> rx" where
  "lits s = foldr (\<lambda>c r. Seq (Atom (Lit c)) r) s Empty"

definition seqs :: "rx list \<Rightarrow> rx" where
  "seqs rs = foldr Seq rs Empty"

fun alts :: "rx list \<Rightarrow> rx" where
  "alts [] = Empty"
| "alts [r] = r"
| "alts (r # q # rs) = Alt r (alts (q # rs))"

text \<open>\<open>\s\<close>, and the separator class \<open>[:\-\s]\<close>.\<close>

definition ws :: atom where
  "ws = In [CSpace]"

definition sep :: atom where
  "sep = In [CChar (code CHR '':''), CChar (code CHR ''-''), CSpace]"

text \<open>\<open>[A-Z0-9\-_/]\<close>\<close>

definition refch :: atom where
  "refch = In [CRange (code CHR ''A'') (code CHR ''Z''), CRange (code CHR ''0'') (code CHR ''9''),
               CChar (code CHR ''-''), CChar (code CHR ''_''), CChar (code CHR ''/'')]"

text \<open>\<open>^\s*(?:Tender(?:\s+Title)?|Title|Project)[:\-\s]{0,5}(.+)$\<close>\<close>

definition RE_TITLE :: rx where
  "RE_TITLE = seqs
     [Bol, Rep ws 0 None,
      alts [Seq (lits (str ''Tender'')) (Opt (Seq (Rep ws 1 None) (lits (str ''Title'')))),
            lits (str ''Title''), lits (str ''Project'')],
      Rep sep 0 (Some 5), Group (Rep AnyChar 1 None), Eol]"

text \<open>\<open>(?:Reference|Ref|Tender\s+No\.?|Tender\s+ID)[:\-\s]{0,5}([A-Z0-9\-_/]+)\<close>\<close>

definition RE_REF :: rx where
  "RE_REF = seqs
     [alts [lits (str ''Reference''), lits (str ''Ref''),
            seqs [lits (str ''Tender''), Rep ws 1 None, lits (str ''No''), Opt (Atom (Lit (code CHR ''.'')))],
            seqs [lits (str ''Tender''), Rep ws 1 None, lits (str ''ID'')]],
      Rep sep 0 (Some 5), Group (Rep refch 1 None)]"

text \<open>\<open>^(?:Issued\s+By|Issuing\s+Organization|Organization|Procurement\s+Entity|Issued\s+To)[:\-\s]{0,5}(.+)$\<close>\<close>

definition RE_ORG :: rx where
  "RE_ORG = seqs
     [Bol,
      alts [seqs [lits (str ''Issued''), Rep ws 1 None, lits (str ''By'')],
            seqs [lits (str ''Issuing''), Rep ws 1 None, lits (str ''Organization'')],
            lits (str ''Organization''),
            seqs [lits (str ''Procurement''), Rep ws 1 None, lits (str ''Entity'')],
            seqs [lits (str ''Issued''), Rep ws 1 None, lits (str ''To'')]],
      Rep sep 0 (Some 5), Group (Rep AnyChar 1 None), Eol]"

text \<open>\<open>(?:Closing\s+Date|Deadline|Bid\s+Submission\s+Deadline|Submission\s+Deadline)[:\-\s]{0,5}(.+)$\<close>\<close>

definition RE_DATE :: rx where
  "RE_DATE = seqs
     [alts [seqs [lits (str ''Closing''), Rep ws 1 None, lits (str ''Date'')],
            lits (str ''Deadline''),
            seqs [lits (str ''Bid''), Rep ws 1 None, lits (str ''Submission''), Rep ws 1 None, lits (str ''Deadline'')],
            seqs [lits (str ''Submission''), Rep ws 1 None, lits (str ''Deadline'')]],
      Rep sep 0 (Some 5), Group (Rep AnyChar 1 None), Eol]"

section \<open>The field parser\<close>

text \<open>
  Exceptions are values, each with its message. \<open>LibError\<close> is anything an external
  library, a \<open>print\<close> or \<open>json.dumps\<close> raises.
\<close>

datatype error =
    RuntimeError ustring
  | IndexError ustring
  | AttributeError ustring
  | LibError ustring

fun message :: "error \<Rightarrow> ustring" where
  "message (RuntimeError m) = m"
| "message (IndexError m) = m"
| "message (AttributeError m) = m"
| "message (LibError m) = m"

definition bind :: "error + 'a \<Rightarrow> ('a \<Rightarrow> error + 'b) \<Rightarrow> error + 'b" where
  "bind x f = (case x of Inl e \<Rightarrow> Inl e | Inr v \<Rightarrow> f v)"

text \<open>
  \<open>m.group(1)\<close> is \<open>None\<close> when the group took no part in the match, and \<open>.strip()\<close> on it
  raises.
\<close>

definition first_match :: "rx \<Rightarrow> ustring \<Rightarrow> error + ustring option" where
  "first_match pattern text =
     (case search pattern None text of
        None \<Rightarrow> Inr None
      | Some m \<Rightarrow>
          (case cap m of
             None \<Rightarrow> Inl (AttributeError (str ''NoneType object has no attribute strip''))
           | Some g \<Rightarrow> Inr (Some (strip g))))"

text \<open>
  The date library is optional and external: \<open>None\<close> when the import failed, otherwise
  what \<open>dateparser.parse(s, fuzzy=True).isoformat()\<close> gives at the time of the call, which
  may be an exception. The library reads the clock (dateutil takes the fields a string
  does not give from the current date), so its answer to one string may differ from one
  call of the parser to the next: two calls have a library each.
\<close>

type_synonym date_lib = "(ustring \<Rightarrow> error + ustring) option"

text \<open>Python truthiness of an \<open>Optional[str]\<close>.\<close>

fun truthy :: "ustring option \<Rightarrow> bool" where
  "truthy None = False"
| "truthy (Some s) = (s \<noteq> [])"

definition normalize_date :: "date_lib \<Rightarrow> ustring option \<Rightarrow> ustring option" where
  "normalize_date dp date_str =
     (if \<not> truthy date_str then None
      else case dp of
             None \<Rightarrow> date_str
           | Some parse \<Rightarrow>
               (case parse (the date_str) of
                  Inr stamp \<Rightarrow> Some stamp
                | Inl e \<Rightarrow> date_str))"

text \<open>\<open>s[0]\<close>\<close>

definition index0 :: "ustring \<Rightarrow> error + nat" where
  "index0 s = (case s of [] \<Rightarrow> Inl (IndexError (str ''string index out of range''))
               | c # _ \<Rightarrow> Inr c)"

text \<open>The loop of the secondary heuristic; it leaves \<open>title\<close> as it was when no line fits.\<close>

fun title_fallback :: "ustring option \<Rightarrow> ustring list \<Rightarrow> error + ustring option" where
  "title_fallback title [] = Inr title"
| "title_fallback title (l # ls) =
     (let s = strip l in
      if s = [] then title_fallback title ls
      else if length s > 10
           then bind (index0 s) (\<lambda>c. if is_upper c then Inr (Some s) else title_fallback title ls)
           else title_fallback title ls)"

definition full_view :: "ustring \<Rightarrow> ustring" where
  "full_view text = join_nl (map strip (filter (\<lambda>l. strip l \<noteq> []) (splitlines text)))"

text \<open>The returned dict, in insertion order.\<close>

type_synonym parsed = "(string \<times> ustring option) list"

definition parse_tender_text :: "date_lib \<Rightarrow> ustring \<Rightarrow> error + parsed" where
  "parse_tender_text dp text =
     (let lines = splitlines text;
          full = full_view text
      in bind (first_match RE_TITLE full) (\<lambda>title.
         bind (first_match RE_REF full) (\<lambda>ref.
         bind (first_match RE_ORG full) (\<lambda>org.
         bind (first_match RE_DATE full) (\<lambda>date.
         bind (if \<not> truthy title then title_fallback title lines else Inr title) (\<lambda>title'.
         Inr [(''title'', title'), (''reference'', ref), (''organization'', org),
              (''closing_date'', normalize_date dp date)]))))))"

section \<open>The text extractor\<close>

text \<open>
  The PDF library, the imaging library and the OCR engine are external. A page is what
  its two calls return; a document is what \<open>load_page\<close> returns for each page number.
\<close>

record pixmap =
  pix_n :: nat
  pix_width :: nat
  pix_height :: nat
  pix_samples :: string

record page =
  get_text :: "error + ustring"
  get_pixmap :: "nat \<Rightarrow> error + pixmap"

type_synonym document = "(error + page) list"

text \<open>
  The optional imports of the module: \<open>None\<close> when the import failed. \<open>fitz\<close> is
  \<open>fitz.open\<close>, \<open>Image\<close> is \<open>Image.frombytes\<close>, \<open>pytesseract\<close> is
  \<open>pytesseract.image_to_string\<close>, \<open>dateparser\<close> is the date library.
\<close>

record 'img env =
  fitz :: "(ustring \<Rightarrow> error + document) option"
  Image :: "(string \<Rightarrow> nat \<times> nat \<Rightarrow> string \<Rightarrow> error + 'img) option"
  pytesseract :: "('img \<Rightarrow> error + ustring) option"
  dateparser :: date_lib

definition fitz_required :: ustring where
  "fitz_required = str (''PyMuPDF (fitz) is required. Install with '' @ [CHR 0x27]
                        @ ''pip install pymupdf'' @ [CHR 0x27] @ ''.'')"

text \<open>The body of the page loop, for one loaded page.\<close>

definition page_text :: "'img env \<Rightarrow> bool \<Rightarrow> nat \<Rightarrow> page \<Rightarrow> error + ustring" where
  "page_text e force_ocr dpi pg =
     (let text = (if \<not> force_ocr
                  then (case get_text pg of Inr t \<Rightarrow> t | Inl x \<Rightarrow> [])
                  else [])
      in if text \<noteq> [] \<and> strip text \<noteq> [] \<and> \<not> force_ocr then Inr text
         else (case (pytesseract e, Image e) of
                 (Some image_to_string, Some frombytes) \<Rightarrow>
                   bind (get_pixmap pg dpi) (\<lambda>pix.
                   let mode = (if pix_n pix < 4 then ''RGB'' else ''RGBA'') in
                   bind (frombytes mode (pix_width pix, pix_height pix) (pix_samples pix)) (\<lambda>img.
                   image_to_string img))
               | _ \<Rightarrow> Inr []))"

fun pages_text :: "'img env \<Rightarrow> bool \<Rightarrow> nat \<Rightarrow> document \<Rightarrow> error + ustring list" where
  "pages_text e force_ocr dpi [] = Inr []"
| "pages_text e force_ocr dpi (loaded # others) =
     bind loaded (\<lambda>pg.
     bind (page_text e force_ocr dpi pg) (\<lambda>t.
     bind (pages_text e force_ocr dpi others) (\<lambda>ts. Inr (t # ts))))"

definition extract_text_from_pdf :: "'img env \<Rightarrow> ustring \<Rightarrow> bool \<Rightarrow> nat \<Rightarrow> error + ustring" where
  "extract_text_from_pdf e path force_ocr dpi =
     (case fitz e of
        None \<Rightarrow> Inl (RuntimeError fitz_required)
      | Some open_doc \<Rightarrow>
          bind (open_doc path) (\<lambda>doc.
          bind (pages_text e force_ocr dpi doc) (\<lambda>ts. Inr (join_nl ts))))"

section \<open>The orchestrator\<close>

record analysis =
  a_path :: ustring
  a_parsed :: parsed
  a_text_snippet :: ustring

definition analyze_file :: "'img env \<Rightarrow> ustring \<Rightarrow> bool \<Rightarrow> nat \<Rightarrow> error + analysis" where
  "analyze_file e path force_ocr dpi =
     bind (extract_text_from_pdf e path force_ocr dpi) (\<lambda>text.
     bind (parse_tender_text (dateparser e) text) (\<lambda>p.
     Inr \<lparr>a_path = path, a_parsed = p, a_text_snippet = take 200 text\<rparr>))"

record args =
  arg_path :: ustring
  arg_json :: bool
  arg_ocr :: bool
  arg_dpi :: nat

text \<open>
  What a run leaves behind: the lines the program printed on each stream, the exit
  status, and the exception that left \<open>main\<close> uncaught, if one did (the interpreter
  then reports it and exits with status 1; its report is not among \<open>err_lines\<close>).
\<close>

record outcome =
  out_lines :: "ustring list"
  err_lines :: "ustring list"
  exit_status :: nat
  uncaught :: "error option"

text \<open>\<open>f"{v}"\<close> of an \<open>Optional[str]\<close>\<close>

fun fmt :: "ustring option \<Rightarrow> ustring" where
  "fmt None = str ''None''"
| "fmt (Some s) = s"

text \<open>
  The \<open>except\<close> branch of \<open>main\<close>: whatever standard output already holds stays there,
  the message goes to the error stream after \<open>Error: \<close>, and \<open>sys.exit(1)\<close> ends the
  process. The \<open>print\<close> on the error stream can raise as well: \<open>emit_err l\<close> is \<open>None\<close>
  when printing \<open>l\<close> there succeeds and the exception when it raises, which then leaves
  \<open>main\<close> uncaught.
\<close>

definition failed :: "(ustring \<Rightarrow> error option) \<Rightarrow> ustring list \<Rightarrow> error \<Rightarrow> outcome" where
  "failed emit_err printed ex =
     (case emit_err (str ''Error: '' @ message ex) of
        None \<Rightarrow> \<lparr>out_lines = printed, err_lines = [str ''Error: '' @ message ex],
                   exit_status = 1, uncaught = None\<rparr>
      | Some ex' \<Rightarrow> \<lparr>out_lines = printed, err_lines = [], exit_status = 1, uncaught = Some ex'\<rparr>)"

text \<open>
  The \<open>print\<close> calls on standard output stand inside the \<open>try\<close>, and a \<open>print\<close> can raise
  (a closed pipe, a character the stream cannot encode). \<open>emit printed l\<close> is what
  printing the line \<open>l\<close> does when \<open>printed\<close> is already out: \<open>None\<close> when it succeeds,
  the exception when it raises. The lines are printed in order; the first exception ends
  the \<open>try\<close> body, and falling off its end is exit status 0.
\<close>

fun print_lines :: "(ustring list \<Rightarrow> ustring \<Rightarrow> error option) \<Rightarrow> (ustring \<Rightarrow> error option)
                    \<Rightarrow> ustring list \<Rightarrow> ustring list \<Rightarrow> outcome" where
  "print_lines emit emit_err printed [] =
     \<lparr>out_lines = printed, err_lines = [], exit_status = 0, uncaught = None\<rparr>"
| "print_lines emit emit_err printed (l # ls) =
     (case emit printed l of
        None \<Rightarrow> print_lines emit emit_err (printed @ [l]) ls
      | Some ex \<Rightarrow> failed emit_err printed ex)"

text \<open>
  \<open>main\<close> after argument parsing. \<open>json.dumps\<close> is a parameter that may raise; it is
  called inside the \<open>try\<close> as well.
\<close>

definition main :: "'img env \<Rightarrow> (analysis \<Rightarrow> error + ustring)
                    \<Rightarrow> (ustring list \<Rightarrow> ustring \<Rightarrow> error option) \<Rightarrow> (ustring \<Rightarrow> error option)
                    \<Rightarrow> args \<Rightarrow> outcome" where
  "main e dumps emit emit_err a =
     (case analyze_file e (arg_path a) (arg_ocr a) (arg_dpi a) of
        Inr result \<Rightarrow>
          (if arg_json a
           then (case dumps result of
                   Inr s \<Rightarrow> print_lines emit emit_err [] [s]
                 | Inl ex \<Rightarrow> failed emit_err [] ex)
           else print_lines emit emit_err []
                  ((str ''Analyzed: '' @ arg_path a)
                   # map (\<lambda>(k, v). str k @ str '': '' @ fmt v) (a_parsed result)))
      | Inl ex \<Rightarrow> failed emit_err [] ex)"

section \<open>Notions used to state the properties\<close>

text \<open>A pattern that closes group 1 on every path through it.\<close>

fun has_group :: "rx \<Rightarrow> bool" where
  "has_group (Group r) = True"
| "has_group (Seq a b) = (has_group a \<or> has_group b)"
| "has_group (Alt a b) = (has_group a \<and> has_group b)"
| "has_group r = False"

text \<open>The test the secondary title heuristic applies to a trimmed line.\<close>

definition title_candidate :: "ustring \<Rightarrow> bool" where
  "title_candidate s = (s \<noteq> [] \<and> length s > 10 \<and> is_upper (hd s))"

subsection \<open>Matching, step by step\<close>

text \<open>
  A text begins with a word as IGNORECASE reads it: letter case aside, and with U+0130
  and U+0131 for \<open>i\<close>, U+017F for \<open>s\<close>, U+212A for \<open>k\<close>.
\<close>

fun ci_prefix :: "ustring \<Rightarrow> ustring \<Rightarrow> bool" where
  "ci_prefix [] t = True"
| "ci_prefix (a # s) [] = False"
| "ci_prefix (a # s) (c # t) = (atom_match (Lit a) c \<and> ci_prefix s t)"

text \<open>A line begins with one of the labels of the title pattern.\<close>

definition title_labelled :: "ustring \<Rightarrow> bool" where
  "title_labelled l = (ci_prefix (str ''Tender'') l \<or> ci_prefix (str ''Title'') l
                       \<or> ci_prefix (str ''Project'') l)"

text \<open>The character before the position reached after reading \<open>w\<close>.\<close>

definition lastp :: "nat option \<Rightarrow> ustring \<Rightarrow> nat option" where
  "lastp p w = (if w = [] then p else Some (last w))"

text \<open>The first way a pattern matches at a position: the one \<open>search\<close> returns.\<close>

definition starts :: "rx \<Rightarrow> mstate \<Rightarrow> mstate \<Rightarrow> bool" where
  "starts r st x = (\<exists>xs. ms r st = x # xs)"

text \<open>
  The pattern matches at no position inside \<open>A\<close>, when the text is \<open>A\<close> followed by \<open>B\<close>
  and \<open>p\<close> is the character before it: the positions \<open>search\<close> passes over before it
  reaches \<open>B\<close>.
\<close>

fun unmatched :: "rx \<Rightarrow> nat option \<Rightarrow> ustring \<Rightarrow> ustring \<Rightarrow> bool" where
  "unmatched r p [] B = True"
| "unmatched r p (c # A) B =
     (ms r \<lparr>prev = p, rest = c # A @ B, cap = None\<rparr> = [] \<and> unmatched r (Some c) A B)"

text \<open>The label alternatives and the tails of the four patterns.\<close>

definition title_labels :: rx where
  "title_labels = alts [Seq (lits (str ''Tender'')) (Opt (Seq (Rep ws 1 None) (lits (str ''Title'')))),
                        lits (str ''Title''), lits (str ''Project'')]"

definition ref_labels :: rx where
  "ref_labels = alts [lits (str ''Reference''), lits (str ''Ref''),
            seqs [lits (str ''Tender''), Rep ws 1 None, lits (str ''No''),
                  Opt (Atom (Lit (code CHR ''.'')))],
            seqs [lits (str ''Tender''), Rep ws 1 None, lits (str ''ID'')]]"

definition org_labels :: rx where
  "org_labels = alts [seqs [lits (str ''Issued''), Rep ws 1 None, lits (str ''By'')],
            seqs [lits (str ''Issuing''), Rep ws 1 None, lits (str ''Organization'')],
            lits (str ''Organization''),
            seqs [lits (str ''Procurement''), Rep ws 1 None, lits (str ''Entity'')],
            seqs [lits (str ''Issued''), Rep ws 1 None, lits (str ''To'')]]"

definition date_labels :: rx where
  "date_labels = alts [seqs [lits (str ''Closing''), Rep ws 1 None, lits (str ''Date'')],
            lits (str ''Deadline''),
            seqs [lits (str ''Bid''), Rep ws 1 None, lits (str ''Submission''), Rep ws 1 None,
                  lits (str ''Deadline'')],
            seqs [lits (str ''Submission''), Rep ws 1 None, lits (str ''Deadline'')]]"

definition line_tail :: rx where
  "line_tail = Seq (Rep sep 0 (Some 5)) (Seq (Group (Rep AnyChar 1 None)) (Seq Eol Empty))"

definition ref_tail :: rx where
  "ref_tail = Seq (Rep sep 0 (Some 5)) (Seq (Group (Rep refch 1 None)) Empty)"

subsection \<open>Lines and alphabets\<close>

text \<open>The comprehension \<open>[l.strip() for l in lines if l.strip()]\<close> that \<open>full\<close> joins.\<close>

definition trimmed_lines :: "ustring \<Rightarrow> ustring list" where
  "trimmed_lines text = map strip (filter (\<lambda>l. strip l \<noteq> []) (splitlines text))"

text \<open>A member of \<open>[A-Z0-9\-_/]\<close> as written, without case folding.\<close>

definition ref_alphabet :: "nat \<Rightarrow> bool" where
  "ref_alphabet c =
     (\<exists>i \<in> set [CRange (code CHR ''A'') (code CHR ''Z''), CRange (code CHR ''0'') (code CHR ''9''),
                 CChar (code CHR ''-''), CChar (code CHR ''_''), CChar (code CHR ''/'')].
        cset_match i c)"

text \<open>
  The characters \<open>[A-Z0-9\-_/]\<close> matches under IGNORECASE: both letter cases, and the
  four characters beyond ASCII that fold to an ASCII letter.
\<close>

definition ref_class :: "nat \<Rightarrow> bool" where
  "ref_class c = ((65 \<le> c \<and> c \<le> 90) \<or> (97 \<le> c \<and> c \<le> 122) \<or> (48 \<le> c \<and> c \<le> 57)
                  \<or> c = code CHR ''-'' \<or> c = code CHR ''_'' \<or> c = code CHR ''/''
                  \<or> c = 0x130 \<or> c = 0x131 \<or> c = 0x17F \<or> c = 0x212A)"

subsection \<open>The sample of the end-to-end property\<close>

definition sample_title_line :: ustring where
  "sample_title_line = str ''Tender Title: Construction of New Bridge''"

definition sample_ref_line :: ustring where
  "sample_ref_line = str ''Reference: TB-2025-00123''"

definition sample_org_line :: ustring where
  "sample_org_line = str ''Issuing Organization: City Public Works Department''"

definition sample_date_line :: ustring where
  "sample_date_line = str ''Closing Date: 30 September 2025''"

definition sample_text :: ustring where
  "sample_text = sample_title_line @ LF # sample_ref_line @ LF # sample_org_line @ LF # sample_date_line"

subsection \<open>Concrete environments\<close>

text \<open>A page with no embedded text that rasterizes to one RGB pixel.\<close>

definition page_blank :: page where
  "page_blank = \<lparr>get_text = Inr [],
                  get_pixmap = (\<lambda>dpi. Inr \<lparr>pix_n = 3, pix_width = 1, pix_height = 1,
                                             pix_samples = ''abc''\<rparr>)\<rparr>"

text \<open>Three blank pages, no OCR engine and no imaging library.\<close>

definition env_no_ocr :: "unit env" where
  "env_no_ocr = \<lparr>fitz = Some (\<lambda>path. Inr [Inr page_blank, Inr page_blank, Inr page_blank]),
                  Image = None, pytesseract = None, dateparser = None\<rparr>"

text \<open>One blank page; the OCR package is importable but its engine raises.\<close>

definition env_ocr_fails :: "unit env" where
  "env_ocr_fails = \<lparr>fitz = Some (\<lambda>path. Inr [Inr page_blank]),
                     Image = Some (\<lambda>mode size data. Inr ()),
                     pytesseract = Some (\<lambda>img. Inl (LibError (str ''tesseract is not installed''))),
                     dateparser = None\<rparr>"

text \<open>The same page where only the embedded text cannot be read and no OCR is installed.\<close>

definition env_text_fails :: "unit env" where
  "env_text_fails = \<lparr>fitz = Some (\<lambda>path. Inr [Inr (page_blank\<lparr>get_text := Inl (LibError (str ''bad page''))\<rparr>)]),
                      Image = None, pytesseract = None, dateparser = None\<rparr>"



definition stdout_breaks :: "ustring list \<Rightarrow> ustring \<Rightarrow> error option" where
  "stdout_breaks printed l = (if printed = [] then None else Some (LibError (str ''Broken pipe'')))"

definition stderr_open :: "ustring \<Rightarrow> error option" where
  "stderr_open l = None"

text \<open>
  A date library as it answers on the day \<open>today\<close> (an ISO date). Like dateutil it takes
  the year that a string does not give from the current date. It knows the two strings
  used below and raises on every other.
\<close>

definition year_filling :: "ustring \<Rightarrow> ustring \<Rightarrow> error + ustring" where
  "year_filling today s =
     (if s = str ''5 May'' then Inr (take 4 today @ str ''-05-05T00:00:00'')
      else if s = str ''30 September 2025'' then Inr (str ''2025-09-30T00:00:00'')
      else Inl (LibError (str ''Unknown string format'')))"

section \<open>Basic facts\<close>

lemma str_Nil_iff [simp]: "(str s = []) = (s = [])"
  by (simp add: str_def)

lemma length_str [simp]: "length (str s) = length s"
  by (simp add: str_def)

lemma bind_Inr [simp]: "bind (Inr v) f = f v"
  by (simp add: bind_def)

lemma bind_Inl [simp]: "bind (Inl e) f = Inl e"
  by (simp add: bind_def)

subsection \<open>Characters by their code points\<close>

text \<open>The code points of the characters that occur in the texts below.\<close>

lemma code_table:
  "code (CHR 0x09) = 9"
  "code (CHR 0x0A) = 10"
  "code (CHR 0x0D) = 13"
  "code (CHR 0x20) = 32"
  "code (CHR 0x21) = 33"
  "code (CHR 0x22) = 34"
  "code (CHR 0x23) = 35"
  "code (CHR 0x24) = 36"
  "code (CHR 0x25) = 37"
  "code (CHR 0x26) = 38"
  "code (CHR 0x27) = 39"
  "code (CHR 0x28) = 40"
  "code (CHR 0x29) = 41"
  "code (CHR 0x2A) = 42"
  "code (CHR 0x2B) = 43"
  "code (CHR 0x2C) = 44"
  "code (CHR 0x2D) = 45"
  "code (CHR 0x2E) = 46"
  "code (CHR 0x2F) = 47"
  "code (CHR 0x30) = 48"
  "code (CHR 0x31) = 49"
  "code (CHR 0x32) = 50"
  "code (CHR 0x33) = 51"
  "code (CHR 0x34) = 52"
  "code (CHR 0x35) = 53"
  "code (CHR 0x36) = 54"
  "code (CHR 0x37) = 55"
  "code (CHR 0x38) = 56"
  "code (CHR 0x39) = 57"
  "code (CHR 0x3A) = 58"
  "code (CHR 0x3B) = 59"
  "code (CHR 0x3C) = 60"
  "code (CHR 0x3D) = 61"
  "code (CHR 0x3E) = 62"
  "code (CHR 0x3F) = 63"
  "code (CHR 0x40) = 64"
  "code (CHR 0x41) = 65"
  "code (CHR 0x42) = 66"
  "code (CHR 0x43) = 67"
  "code (CHR 0x44) = 68"
  "code (CHR 0x45) = 69"
  "code (CHR 0x46) = 70"
  "code (CHR 0x47) = 71"
  "code (CHR 0x48) = 72"
  "code (CHR 0x49) = 73"
  "code (CHR 0x4A) = 74"
  "code (CHR 0x4B) = 75"
  "code (CHR 0x4C) = 76"
  "code (CHR 0x4D) = 77"
  "code (CHR 0x4E) = 78"
  "code (CHR 0x4F) = 79"
  "code (CHR 0x50) = 80"
  "code (CHR 0x51) = 81"
  "code (CHR 0x52) = 82"
  "code (CHR 0x53) = 83"
  "code (CHR 0x54) = 84"
  "code (CHR 0x55) = 85"
  "code (CHR 0x56) = 86"
  "code (CHR 0x57) = 87"
  "code (CHR 0x58) = 88"
  "code (CHR 0x59) = 89"
  "code (CHR 0x5A) = 90"
  "code (CHR 0x5B) = 91"
  "code (CHR 0x5C) = 92"
  "code (CHR 0x5D) = 93"
  "code (CHR 0x5E) = 94"
  "code (CHR 0x5F) = 95"
  "code (CHR 0x60) = 96"
  "code (CHR 0x61) = 97"
  "code (CHR 0x62) = 98"
  "code (CHR 0x63) = 99"
  "code (CHR 0x64) = 100"
  "code (CHR 0x65) = 101"
  "code (CHR 0x66) = 102"
  "code (CHR 0x67) = 103"
  "code (CHR 0x68) = 104"
  "code (CHR 0x69) = 105"
  "code (CHR 0x6A) = 106"
  "code (CHR 0x6B) = 107"
  "code (CHR 0x6C) = 108"
  "code (CHR 0x6D) = 109"
  "code (CHR 0x6E) = 110"
  "code (CHR 0x6F) = 111"
  "code (CHR 0x70) = 112"
  "code (CHR 0x71) = 113"
  "code (CHR 0x72) = 114"
  "code (CHR 0x73) = 115"
  "code (CHR 0x74) = 116"
  "code (CHR 0x75) = 117"
  "code (CHR 0x76) = 118"
  "code (CHR 0x77) = 119"
  "code (CHR 0x78) = 120"
  "code (CHR 0x79) = 121"
  "code (CHR 0x7A) = 122"
  "code (CHR 0x7B) = 123"
  "code (CHR 0x7C) = 124"
  "code (CHR 0x7D) = 125"
  "code (CHR 0x7E) = 126"
  by (simp_all add: code_def)

text \<open>Rules that evaluate the character tests on literal characters.\<close>

lemmas char_eval = str_def code_table is_space_def is_linebreak_def is_upper_def
  ci_fold_def ci_unfold_def variants_def LF_def CR_def

text \<open>What folding can give, and what the classes match over all code points.\<close>

lemma ci_fold_cases: "ci_fold c = c \<or> (97 \<le> ci_fold c \<and> ci_fold c \<le> 122)"
  by (auto simp: ci_fold_def)

lemma ci_unfold_cases: "ci_unfold c = c \<or> (65 \<le> ci_unfold c \<and> ci_unfold c \<le> 90)"
  by (auto simp: ci_unfold_def)

lemma variants_cases: "v \<in> set (variants c) \<Longrightarrow> v = c \<or> (65 \<le> v \<and> v \<le> 122)"
  using ci_fold_cases [of c] ci_unfold_cases [of "ci_fold c"] by (auto simp: variants_def)

lemma letter_no_space: "65 \<le> v \<Longrightarrow> v \<le> 122 \<Longrightarrow> \<not> is_space v"
  by (simp add: is_space_def)

lemma self_variant: "c \<in> set (variants c)"
  by (simp add: variants_def)

lemmas rx_defs = RE_TITLE_def RE_REF_def RE_ORG_def RE_DATE_def lits_def seqs_def
  ws_def sep_def refch_def

subsection \<open>Group 1 is always closed by a match\<close>

lemma ms_cap_kept: "x \<in> set (ms r st) \<Longrightarrow> cap st \<noteq> None \<Longrightarrow> cap x \<noteq> None"
proof (induction r arbitrary: st x)
  case (Atom a)
  then show ?case by (auto split: list.splits if_splits)
next
  case Eol
  then show ?case by (auto split: list.splits if_splits)
next
  case (Seq a b)
  then show ?case by fastforce
next
  case (Opt r)
  then show ?case by fastforce
qed (auto split: if_splits)

lemma ms_has_group: "has_group r \<Longrightarrow> x \<in> set (ms r st) \<Longrightarrow> cap x \<noteq> None"
proof (induction r arbitrary: st x)
  case (Seq a b)
  from Seq.prems(2) obtain y where y: "y \<in> set (ms a st)" "x \<in> set (ms b y)"
    by auto
  show ?case
  proof (cases "has_group b")
    case True
    then show ?thesis using Seq.IH(2) y(2) by blast
  next
    case False
    then have "has_group a" using Seq.prems(1) by simp
    then have "cap y \<noteq> None" using Seq.IH(1) y(1) by blast
    then show ?thesis using ms_cap_kept y(2) by blast
  qed
next
  case (Alt a b)
  then show ?case by auto
next
  case (Group r)
  then show ?case by auto
qed simp_all

lemma search_in_ms:
  "search r p s = Some m \<Longrightarrow> \<exists>q t. m \<in> set (ms r \<lparr>prev = q, rest = t, cap = None\<rparr>)"
proof (induction s arbitrary: p)
  case Nil
  then have "m \<in> set (ms r \<lparr>prev = p, rest = [], cap = None\<rparr>)"
    by (auto split: list.splits)
  then show ?case by blast
next
  case (Cons c cs)
  show ?case
  proof (cases "ms r \<lparr>prev = p, rest = c # cs, cap = None\<rparr>")
    case Nil
    then show ?thesis using Cons by simp
  next
    case (Cons y ys)
    then have "m = y" using Cons.prems by simp
    then show ?thesis using Cons by (metis list.set_intros(1))
  qed
qed

lemma first_match_total:
  assumes "has_group r"
  shows "\<exists>v. first_match r t = Inr v"
proof (cases "search r None t")
  case None
  then show ?thesis by (simp add: first_match_def)
next
  case (Some m)
  then have "cap m \<noteq> None" using search_in_ms ms_has_group assms by blast
  then show ?thesis using Some by (auto simp: first_match_def)
qed

lemma has_group_seqs [simp]: "has_group (seqs rs) = (\<exists>r \<in> set rs. has_group r)"
  by (induction rs) (simp_all add: seqs_def)

lemma has_group_patterns:
  "has_group RE_TITLE" "has_group RE_REF" "has_group RE_ORG" "has_group RE_DATE"
  by (simp_all add: RE_TITLE_def RE_REF_def RE_ORG_def RE_DATE_def)

lemma title_fallback_total: "\<exists>v. title_fallback t ls = Inr v"
  by (induction ls) (auto simp: Let_def index0_def split: list.splits)

lemma title_fallback_find:
  "title_fallback None ls = Inr (find title_candidate (map strip ls))"
  by (induction ls) (auto simp: Let_def index0_def title_candidate_def split: list.splits)

lemma join_nl_blank: "join_nl (replicate (Suc n) []) = replicate n LF"
  by (induction n) simp_all

text \<open>Rules that run a pattern on a literal text.\<close>

lemmas run_eval = first_match_def strip_def char_eval rx_defs

subsection \<open>The matcher, step by step\<close>

lemma lastp_Nil [simp]: "lastp p [] = p"
  by (simp add: lastp_def)

lemma lastp_Cons [simp]: "lastp p (c # w) = lastp (Some c) w"
  by (simp add: lastp_def)

lemma lastp_append [simp]: "lastp p (u @ w) = lastp (lastp p u) w"
  by (induction u arbitrary: p) simp_all

lemma ms_lits:
  "ms (lits s) st =
     (if ci_prefix s (rest st)
      then [st\<lparr>prev := lastp (prev st) (take (length s) (rest st)),
               rest := drop (length s) (rest st)\<rparr>]
      else [])"
proof (induction s arbitrary: st)
  case Nil
  then show ?case by (simp add: lits_def)
next
  case (Cons a s)
  have l: "lits (a # s) = Seq (Atom (Lit a)) (lits s)"
    by (simp add: lits_def)
  show ?case
  proof (cases "rest st")
    case Nil
    then show ?thesis by (simp add: l)
  next
    case (Cons c cs)
    then show ?thesis by (simp add: l Cons.IH del: atom_match.simps)
  qed
qed

lemma ci_prefix_append: "ci_prefix s w \<Longrightarrow> ci_prefix s (w @ R)"
  by (induction s w rule: ci_prefix.induct) simp_all

lemma rep_first:
  assumes "\<forall>c \<in> set w. atom_match a c"
    and "R = [] \<or> \<not> atom_match a (hd R) \<or> hi = Some (length w)"
    and "lo \<le> length w"
    and "\<forall>h. hi = Some h \<longrightarrow> length w \<le> h"
  shows "\<exists>xs. rep a lo hi p (w @ R) = (lastp p w, R) # xs"
  using assms
proof (induction w arbitrary: lo hi p)
  case Nil
  then show ?case by (cases R) auto
next
  case (Cons c w)
  have m: "atom_match a c" and nz: "hi \<noteq> Some 0"
    using Cons.prems by auto
  have "\<exists>xs. rep a (lo - 1) (map_option (\<lambda>h. h - 1) hi) (Some c) (w @ R) = (lastp (Some c) w, R) # xs"
  proof (rule Cons.IH)
    show "\<forall>c \<in> set w. atom_match a c" using Cons.prems(1) by simp
    show "R = [] \<or> \<not> atom_match a (hd R) \<or> map_option (\<lambda>h. h - 1) hi = Some (length w)"
      using Cons.prems(2) by auto
    show "lo - 1 \<le> length w" using Cons.prems(3) by simp
    show "\<forall>h. map_option (\<lambda>h. h - 1) hi = Some h \<longrightarrow> length w \<le> h"
      using Cons.prems(4) by (cases hi) auto
  qed
  then show ?case using m nz by (auto simp del: atom_match.simps)
qed

lemma starts_Seq: "starts a st x \<Longrightarrow> starts b x y \<Longrightarrow> starts (Seq a b) st y"
  by (auto simp: starts_def)

lemma starts_Alt1: "starts a st x \<Longrightarrow> starts (Alt a b) st x"
  by (auto simp: starts_def)

lemma starts_Alt2: "ms a st = [] \<Longrightarrow> starts b st x \<Longrightarrow> starts (Alt a b) st x"
  by (auto simp: starts_def)

lemma starts_Opt1: "starts r st x \<Longrightarrow> starts (Opt r) st x"
  by (auto simp: starts_def)

lemma starts_Empty: "starts Empty st st"
  by (simp add: starts_def)

lemma starts_Bol: "p = None \<or> p = Some LF \<Longrightarrow> starts Bol \<lparr>prev = p, rest = t, cap = c\<rparr> \<lparr>prev = p, rest = t, cap = c\<rparr>"
  by (auto simp: starts_def)

lemma starts_Eol: "R = [] \<or> hd R = LF \<Longrightarrow> starts Eol \<lparr>prev = p, rest = R, cap = c\<rparr> \<lparr>prev = p, rest = R, cap = c\<rparr>"
  by (cases R) (auto simp: starts_def)

lemma starts_Rep:
  assumes "\<forall>c \<in> set w. atom_match a c"
    and "R = [] \<or> \<not> atom_match a (hd R) \<or> hi = Some (length w)"
    and "lo \<le> length w"
    and "\<forall>h. hi = Some h \<longrightarrow> length w \<le> h"
  shows "starts (Rep a lo hi) \<lparr>prev = p, rest = w @ R, cap = c\<rparr> \<lparr>prev = lastp p w, rest = R, cap = c\<rparr>"
proof -
  obtain xs where "rep a lo hi p (w @ R) = (lastp p w, R) # xs"
    using rep_first [OF assms] by blast
  then show ?thesis by (simp add: starts_def)
qed

lemma starts_Group:
  assumes "starts r \<lparr>prev = p, rest = w @ R, cap = c\<rparr> \<lparr>prev = q, rest = R, cap = c'\<rparr>"
  shows "starts (Group r) \<lparr>prev = p, rest = w @ R, cap = c\<rparr> \<lparr>prev = q, rest = R, cap = Some w\<rparr>"
  using assms by (auto simp: starts_def)

lemma starts_lits:
  assumes "ci_prefix s w" and "length w = length s"
  shows "starts (lits s) \<lparr>prev = p, rest = w @ R, cap = c\<rparr> \<lparr>prev = lastp p w, rest = R, cap = c\<rparr>"
  using assms by (simp add: starts_def ms_lits ci_prefix_append)

lemma search_hit: "starts r \<lparr>prev = p, rest = s, cap = None\<rparr> x \<Longrightarrow> search r p s = Some x"
  by (cases s) (auto simp: starts_def)

lemma search_skip:
  assumes "\<forall>i < length A. ms r \<lparr>prev = lastp p (take i A), rest = drop i A @ B, cap = None\<rparr> = []"
  shows "search r p (A @ B) = search r (lastp p A) B"
  using assms
proof (induction A arbitrary: p)
  case Nil
  then show ?case by simp
next
  case (Cons a A)
  have "ms r \<lparr>prev = p, rest = (a # A) @ B, cap = None\<rparr> = []"
    using Cons.prems [rule_format, of 0] by simp
  moreover have "\<forall>i < length A. ms r \<lparr>prev = lastp (Some a) (take i A), rest = drop i A @ B, cap = None\<rparr> = []"
  proof (intro allI impI)
    fix i assume "i < length A"
    then show "ms r \<lparr>prev = lastp (Some a) (take i A), rest = drop i A @ B, cap = None\<rparr> = []"
      using Cons.prems [rule_format, of "Suc i"] by simp
  qed
  ultimately show ?case using Cons.IH [of "Some a"] by simp
qed

lemma search_unmatched:
  "unmatched r p A B \<Longrightarrow> search r p (A @ B) = search r (lastp p A) B"
  by (induction A arbitrary: p) simp_all

text \<open>The shared tail \<open>[:\-\s]{0,5}(.+)$\<close>.\<close>

lemma line_tail_starts:
  assumes "\<forall>c \<in> set S. atom_match sep c" and "length S \<le> 5"
    and "G \<noteq> []" and "LF \<notin> set G"
    and "length S = 5 \<or> \<not> atom_match sep (hd G)"
    and "R = [] \<or> hd R = LF"
  shows "starts (Seq (Rep sep 0 (Some 5)) (Seq (Group (Rep AnyChar 1 None)) (Seq Eol Empty)))
           \<lparr>prev = p, rest = S @ G @ R, cap = c\<rparr> \<lparr>prev = Some (last G), rest = R, cap = Some G\<rparr>"
proof -
  have 1: "starts (Rep sep 0 (Some 5)) \<lparr>prev = p, rest = S @ G @ R, cap = c\<rparr>
             \<lparr>prev = lastp p S, rest = G @ R, cap = c\<rparr>"
    using assms(1,2,3,5) by (intro starts_Rep) auto
  have "starts (Rep AnyChar 1 None) \<lparr>prev = lastp p S, rest = G @ R, cap = c\<rparr>
          \<lparr>prev = lastp (lastp p S) G, rest = R, cap = c\<rparr>"
    using assms(3,4,6) by (intro starts_Rep) (auto simp: Suc_le_eq)
  then have 2: "starts (Group (Rep AnyChar 1 None)) \<lparr>prev = lastp p S, rest = G @ R, cap = c\<rparr>
          \<lparr>prev = lastp (lastp p S) G, rest = R, cap = Some G\<rparr>"
    by (rule starts_Group)
  have 3: "starts (Seq Eol Empty) \<lparr>prev = lastp (lastp p S) G, rest = R, cap = Some G\<rparr>
          \<lparr>prev = lastp (lastp p S) G, rest = R, cap = Some G\<rparr>"
    using assms(6) by (intro starts_Seq [OF starts_Eol starts_Empty])
  have "lastp (lastp p S) G = Some (last G)"
    using assms(3) by (simp add: lastp_def)
  then show ?thesis
    using starts_Seq [OF 1 starts_Seq [OF 2 3]] by simp
qed

text \<open>The tail of the reference pattern, \<open>[:\-\s]{0,5}([A-Z0-9\-_/]+)\<close>.\<close>

lemma ref_tail_starts:
  assumes "\<forall>c \<in> set S. atom_match sep c" and "length S \<le> 5"
    and "X \<noteq> []" and "\<forall>c \<in> set X. atom_match refch c"
    and "length S = 5 \<or> \<not> atom_match sep (hd X)"
    and "Q = [] \<or> \<not> atom_match refch (hd Q)"
  shows "starts (Seq (Rep sep 0 (Some 5)) (Seq (Group (Rep refch 1 None)) Empty))
           \<lparr>prev = p, rest = S @ X @ Q, cap = c\<rparr> \<lparr>prev = Some (last X), rest = Q, cap = Some X\<rparr>"
proof -
  have 1: "starts (Rep sep 0 (Some 5)) \<lparr>prev = p, rest = S @ X @ Q, cap = c\<rparr>
             \<lparr>prev = lastp p S, rest = X @ Q, cap = c\<rparr>"
    using assms(1,2,3,5) by (intro starts_Rep) auto
  have "starts (Rep refch 1 None) \<lparr>prev = lastp p S, rest = X @ Q, cap = c\<rparr>
          \<lparr>prev = lastp (lastp p S) X, rest = Q, cap = c\<rparr>"
    using assms(3,4,6) by (intro starts_Rep) (auto simp: Suc_le_eq)
  then have 2: "starts (Group (Rep refch 1 None)) \<lparr>prev = lastp p S, rest = X @ Q, cap = c\<rparr>
          \<lparr>prev = lastp (lastp p S) X, rest = Q, cap = Some X\<rparr>"
    by (rule starts_Group)
  have "lastp (lastp p S) X = Some (last X)"
    using assms(3) by (simp add: lastp_def)
  then show ?thesis
    using starts_Seq [OF 1 starts_Seq [OF 2 starts_Empty]] by simp
qed

lemmas step_eval = seqs_def ms_lits char_eval ws_def sep_def refch_def

subsection \<open>The four patterns at a labelled line\<close>

lemma RE_TITLE_split: "RE_TITLE = Seq Bol (Seq (Rep ws 0 None) (Seq title_labels line_tail))"
  by (simp add: RE_TITLE_def seqs_def title_labels_def line_tail_def)

lemma RE_REF_split: "RE_REF = Seq ref_labels ref_tail"
  by (simp add: RE_REF_def seqs_def ref_labels_def ref_tail_def)

lemma RE_ORG_split: "RE_ORG = Seq Bol (Seq org_labels line_tail)"
  by (simp add: RE_ORG_def seqs_def org_labels_def line_tail_def)

lemma RE_DATE_split: "RE_DATE = Seq date_labels line_tail"
  by (simp add: RE_DATE_def seqs_def date_labels_def line_tail_def)

lemma title_label_starts:
  "starts title_labels \<lparr>prev = p, rest = (str ''Tender Title'') @ R, cap = c\<rparr>
     \<lparr>prev = Some (code CHR ''e''), rest = R, cap = c\<rparr>"
  by (simp add: starts_def title_labels_def step_eval)

lemma ref_label_starts:
  "starts ref_labels \<lparr>prev = p, rest = (str ''Reference'') @ R, cap = c\<rparr>
     \<lparr>prev = Some (code CHR ''e''), rest = R, cap = c\<rparr>"
  by (simp add: starts_def ref_labels_def step_eval)

lemma org_label_starts:
  "starts org_labels \<lparr>prev = p, rest = (str ''Issuing Organization'') @ R, cap = c\<rparr>
     \<lparr>prev = Some (code CHR ''n''), rest = R, cap = c\<rparr>"
  by (simp add: starts_def org_labels_def step_eval)

lemma date_label_starts:
  "starts date_labels \<lparr>prev = p, rest = (str ''Closing Date'') @ R, cap = c\<rparr>
     \<lparr>prev = Some (code CHR ''e''), rest = R, cap = c\<rparr>"
  by (simp add: starts_def date_labels_def step_eval)

lemma line_tail_starts':
  assumes "\<forall>c \<in> set S. atom_match sep c" and "length S \<le> 5"
    and "G \<noteq> []" and "LF \<notin> set G"
    and "length S = 5 \<or> \<not> atom_match sep (hd G)"
    and "R = [] \<or> hd R = LF"
  shows "starts line_tail \<lparr>prev = p, rest = S @ G @ R, cap = c\<rparr>
           \<lparr>prev = Some (last G), rest = R, cap = Some G\<rparr>"
  unfolding line_tail_def using assms by (rule line_tail_starts)

lemma ref_tail_starts':
  assumes "\<forall>c \<in> set S. atom_match sep c" and "length S \<le> 5"
    and "X \<noteq> []" and "\<forall>c \<in> set X. atom_match refch c"
    and "length S = 5 \<or> \<not> atom_match sep (hd X)"
    and "Q = [] \<or> \<not> atom_match refch (hd Q)"
  shows "starts ref_tail \<lparr>prev = p, rest = S @ X @ Q, cap = c\<rparr>
           \<lparr>prev = Some (last X), rest = Q, cap = Some X\<rparr>"
  unfolding ref_tail_def using assms by (rule ref_tail_starts)

lemma title_hit:
  assumes "p = None \<or> p = Some LF"
    and "\<forall>c \<in> set S. atom_match sep c" and "length S \<le> 5"
    and "G \<noteq> []" and "LF \<notin> set G"
    and "length S = 5 \<or> \<not> atom_match sep (hd G)"
    and "R = [] \<or> hd R = LF"
  shows "starts RE_TITLE \<lparr>prev = p, rest = (str ''Tender Title'') @ S @ G @ R, cap = None\<rparr>
           \<lparr>prev = Some (last G), rest = R, cap = Some G\<rparr>"
proof -
  let ?st = "\<lparr>prev = p, rest = (str ''Tender Title'') @ S @ G @ R, cap = None\<rparr>"
  have 1: "starts Bol ?st ?st"
    using assms(1) by (rule starts_Bol)
  have "starts (Rep ws 0 None) \<lparr>prev = p, rest = [] @ (str ''Tender Title'') @ S @ G @ R, cap = None\<rparr>
          \<lparr>prev = lastp p [], rest = (str ''Tender Title'') @ S @ G @ R, cap = None\<rparr>"
    by (rule starts_Rep) (simp_all add: step_eval)
  then have 2: "starts (Rep ws 0 None) ?st ?st"
    by simp
  show ?thesis
    unfolding RE_TITLE_split
    by (rule starts_Seq [OF 1 starts_Seq [OF 2 starts_Seq [OF title_label_starts
          line_tail_starts' [OF assms(2-7)]]]])
qed

lemma ref_hit:
  assumes "\<forall>c \<in> set S. atom_match sep c" and "length S \<le> 5"
    and "X \<noteq> []" and "\<forall>c \<in> set X. atom_match refch c"
    and "length S = 5 \<or> \<not> atom_match sep (hd X)"
    and "Q = [] \<or> \<not> atom_match refch (hd Q)"
  shows "starts RE_REF \<lparr>prev = p, rest = (str ''Reference'') @ S @ X @ Q, cap = None\<rparr>
           \<lparr>prev = Some (last X), rest = Q, cap = Some X\<rparr>"
  unfolding RE_REF_split
  by (rule starts_Seq [OF ref_label_starts ref_tail_starts' [OF assms]])

lemma org_hit:
  assumes "p = None \<or> p = Some LF"
    and "\<forall>c \<in> set S. atom_match sep c" and "length S \<le> 5"
    and "G \<noteq> []" and "LF \<notin> set G"
    and "length S = 5 \<or> \<not> atom_match sep (hd G)"
    and "R = [] \<or> hd R = LF"
  shows "starts RE_ORG \<lparr>prev = p, rest = (str ''Issuing Organization'') @ S @ G @ R, cap = None\<rparr>
           \<lparr>prev = Some (last G), rest = R, cap = Some G\<rparr>"
  unfolding RE_ORG_split
  by (rule starts_Seq [OF starts_Bol [OF assms(1)] starts_Seq [OF org_label_starts
          line_tail_starts' [OF assms(2-7)]]])

lemma date_hit:
  assumes "\<forall>c \<in> set S. atom_match sep c" and "length S \<le> 5"
    and "G \<noteq> []" and "LF \<notin> set G"
    and "length S = 5 \<or> \<not> atom_match sep (hd G)"
    and "R = [] \<or> hd R = LF"
  shows "starts RE_DATE \<lparr>prev = p, rest = (str ''Closing Date'') @ S @ G @ R, cap = None\<rparr>
           \<lparr>prev = Some (last G), rest = R, cap = Some G\<rparr>"
  unfolding RE_DATE_split
  by (rule starts_Seq [OF date_label_starts line_tail_starts' [OF assms]])

text \<open>A pattern anchored with \<open>^\<close> is tried once per line.\<close>

lemma anchored_skip:
  assumes "LF \<notin> set l"
    and "ms (Seq Bol r) \<lparr>prev = p, rest = l @ LF # B, cap = None\<rparr> = []"
  shows "search (Seq Bol r) p (l @ LF # B) = search (Seq Bol r) (Some LF) B"
proof -
  have "\<forall>i < length (l @ [LF]).
          ms (Seq Bol r) \<lparr>prev = lastp p (take i (l @ [LF])), rest = drop i (l @ [LF]) @ B, cap = None\<rparr> = []"
  proof (intro allI impI)
    fix i assume i: "i < length (l @ [LF])"
    show "ms (Seq Bol r) \<lparr>prev = lastp p (take i (l @ [LF])), rest = drop i (l @ [LF]) @ B, cap = None\<rparr> = []"
    proof (cases i)
      case 0
      then show ?thesis using assms(2) by simp
    next
      case (Suc j)
      then have j: "j < length l" using i by simp
      then have "take i (l @ [LF]) = take j l @ [l ! j]"
        using Suc by (simp add: take_Suc_conv_app_nth)
      then have "lastp p (take i (l @ [LF])) = Some (l ! j)"
        by (simp add: lastp_def)
      moreover have "l ! j \<noteq> LF"
        using assms(1) j by (metis nth_mem)
      ultimately show ?thesis by simp
    qed
  qed
  then have "search (Seq Bol r) p ((l @ [LF]) @ B) = search (Seq Bol r) (lastp p (l @ [LF])) B"
    by (rule search_skip)
  then show ?thesis by (simp add: lastp_def)
qed

subsection \<open>Lines\<close>

lemmas sample_lines = sample_title_line_def sample_ref_line_def sample_org_line_def sample_date_line_def

lemma is_linebreak_LF [simp]: "is_linebreak LF"
  by (simp add: char_eval)

lemma splitlines_last:
  "\<forall>c \<in> set l. \<not> is_linebreak c \<Longrightarrow> l \<noteq> [] \<Longrightarrow> splitlines l = [l]"
proof (induction l rule: splitlines.induct)
  case (3 c d cs)
  then show ?case by (auto split: list.splits)
qed simp_all

lemma splitlines_line:
  "\<forall>c \<in> set l. \<not> is_linebreak c \<Longrightarrow> splitlines (l @ LF # B) = l # splitlines B"
proof (induction l)
  case Nil
  then show ?case by (cases B) (auto simp: char_eval)
next
  case (Cons c l)
  then have "splitlines (c # (l @ LF # B)) = (c # l) # splitlines B"
    by (cases "l @ LF # B") (auto simp: char_eval)
  then show ?case by simp
qed

lemma strip_id: "l \<noteq> [] \<Longrightarrow> \<not> is_space (hd l) \<Longrightarrow> \<not> is_space (last l) \<Longrightarrow> strip l = l"
proof -
  assume a: "l \<noteq> []" "\<not> is_space (hd l)" "\<not> is_space (last l)"
  then have "dropWhile is_space l = l"
    by (cases l) auto
  moreover have "dropWhile is_space (rev l) = rev l"
    using a by (cases "rev l") (auto simp: last_rev hd_rev dest: arg_cong [where f = hd])
  ultimately show ?thesis by (simp add: strip_def)
qed

lemma first_match_hit:
  "starts r \<lparr>prev = None, rest = t, cap = None\<rparr> \<lparr>prev = q, rest = R, cap = Some G\<rparr>
   \<Longrightarrow> first_match r t = Inr (Some (strip G))"
  by (simp add: first_match_def search_hit)

lemma sample_lines_plain:
  "\<forall>c \<in> set sample_title_line. \<not> is_linebreak c"
  "\<forall>c \<in> set sample_ref_line. \<not> is_linebreak c"
  "\<forall>c \<in> set sample_org_line. \<not> is_linebreak c"
  "\<forall>c \<in> set sample_date_line. \<not> is_linebreak c"
  by (simp_all add: sample_lines char_eval)

lemma sample_lines_stripped:
  "strip sample_title_line = sample_title_line"
  "strip sample_ref_line = sample_ref_line"
  "strip sample_org_line = sample_org_line"
  "strip sample_date_line = sample_date_line"
  by (rule strip_id; simp add: sample_lines char_eval)+

lemma sample_lines_nonempty:
  "sample_title_line \<noteq> []" "sample_ref_line \<noteq> []" "sample_org_line \<noteq> []" "sample_date_line \<noteq> []"
  by (simp_all add: sample_lines str_def)

lemma splitlines_sample:
  "splitlines sample_text = [sample_title_line, sample_ref_line, sample_org_line, sample_date_line]"
  unfolding sample_text_def
  by (simp only: splitlines_line [OF sample_lines_plain(1)] splitlines_line [OF sample_lines_plain(2)]
        splitlines_line [OF sample_lines_plain(3)]
        splitlines_last [OF sample_lines_plain(4) sample_lines_nonempty(4)])

lemma full_view_sample: "full_view sample_text = sample_text"
  unfolding full_view_def splitlines_sample
  by (simp add: sample_lines_stripped sample_lines_nonempty sample_text_def)

lemma sample_lines_no_LF:
  "LF \<notin> set sample_title_line" "LF \<notin> set sample_ref_line" "LF \<notin> set sample_org_line"
  using sample_lines_plain is_linebreak_LF by blast+

lemma sample_title:
  "first_match RE_TITLE (sample_title_line @ LF # B) = Inr (Some (str ''Construction of New Bridge''))"
proof -
  have "starts RE_TITLE \<lparr>prev = None, rest = (str ''Tender Title'') @ (str '': '') @ (str ''Construction of New Bridge'') @ LF # B, cap = None\<rparr>
           \<lparr>prev = Some (last (str ''Construction of New Bridge'')), rest = LF # B, cap = Some (str ''Construction of New Bridge'')\<rparr>"
    by (rule title_hit) (simp_all add: step_eval)
  then have "first_match RE_TITLE ((str ''Tender Title'') @ (str '': '') @ (str ''Construction of New Bridge'') @ LF # B)
               = Inr (Some (strip (str ''Construction of New Bridge'')))"
    by (rule first_match_hit)
  moreover have "strip (str ''Construction of New Bridge'') = (str ''Construction of New Bridge'')"
    by (rule strip_id) (simp_all add: char_eval)
  ultimately show ?thesis by (simp add: sample_title_line_def str_def)
qed

lemma search_hit_eq:
  "starts r \<lparr>prev = p, rest = t, cap = None\<rparr> \<lparr>prev = q, rest = R, cap = Some G\<rparr>
   \<Longrightarrow> search r p t = Some \<lparr>prev = q, rest = R, cap = Some G\<rparr>"
  by (rule search_hit)

lemma first_match_search:
  "search r None t = Some \<lparr>prev = q, rest = R, cap = Some G\<rparr> \<Longrightarrow> first_match r t = Inr (Some (strip G))"
  by (simp add: first_match_def)

lemma ref_skip_title:
  "search RE_REF p (sample_title_line @ LF # B) = search RE_REF (Some LF) B"
  by (simp add: sample_title_line_def RE_REF_def step_eval)

lemma sample_ref:
  "first_match RE_REF (sample_title_line @ LF # sample_ref_line @ LF # B) = Inr (Some (str ''TB-2025-00123''))"
proof -
  have "starts RE_REF \<lparr>prev = Some LF, rest = (str ''Reference'') @ (str '': '') @ (str ''TB-2025-00123'') @ LF # B, cap = None\<rparr>
           \<lparr>prev = Some (last (str ''TB-2025-00123'')), rest = LF # B, cap = Some (str ''TB-2025-00123'')\<rparr>"
    by (rule ref_hit) (simp_all add: step_eval)
  then have "search RE_REF (Some LF) ((str ''Reference'') @ (str '': '') @ (str ''TB-2025-00123'') @ LF # B)
       = Some \<lparr>prev = Some (last (str ''TB-2025-00123'')), rest = LF # B, cap = Some (str ''TB-2025-00123'')\<rparr>"
    by (rule search_hit_eq)
  then have "search RE_REF None (sample_title_line @ LF # sample_ref_line @ LF # B)
       = Some \<lparr>prev = Some (last (str ''TB-2025-00123'')), rest = LF # B, cap = Some (str ''TB-2025-00123'')\<rparr>"
    by (simp add: ref_skip_title sample_ref_line_def str_def)
  then have "first_match RE_REF (sample_title_line @ LF # sample_ref_line @ LF # B)
               = Inr (Some (strip (str ''TB-2025-00123'')))"
    by (rule first_match_search)
  moreover have "strip (str ''TB-2025-00123'') = (str ''TB-2025-00123'')"
    by (rule strip_id) (simp_all add: char_eval)
  ultimately show ?thesis by simp
qed

lemma org_skip_title:
  "search RE_ORG p (sample_title_line @ LF # B) = search RE_ORG (Some LF) B"
  unfolding RE_ORG_split
  by (rule anchored_skip [OF sample_lines_no_LF(1)])
     (simp add: sample_title_line_def org_labels_def step_eval)

lemma org_skip_ref:
  "search RE_ORG p (sample_ref_line @ LF # B) = search RE_ORG (Some LF) B"
  unfolding RE_ORG_split
  by (rule anchored_skip [OF sample_lines_no_LF(2)])
     (simp add: sample_ref_line_def org_labels_def step_eval)

lemma sample_org:
  "first_match RE_ORG (sample_title_line @ LF # sample_ref_line @ LF # sample_org_line @ LF # B)
     = Inr (Some (str ''City Public Works Department''))"
proof -
  have "starts RE_ORG \<lparr>prev = Some LF, rest = (str ''Issuing Organization'') @ (str '': '') @ (str ''City Public Works Department'') @ LF # B, cap = None\<rparr>
           \<lparr>prev = Some (last (str ''City Public Works Department'')), rest = LF # B,
              cap = Some (str ''City Public Works Department'')\<rparr>"
    by (rule org_hit) (simp_all add: step_eval)
  then have "search RE_ORG (Some LF) ((str ''Issuing Organization'') @ (str '': '') @ (str ''City Public Works Department'') @ LF # B)
       = Some \<lparr>prev = Some (last (str ''City Public Works Department'')), rest = LF # B,
                cap = Some (str ''City Public Works Department'')\<rparr>"
    by (rule search_hit_eq)
  then have "search RE_ORG None (sample_title_line @ LF # sample_ref_line @ LF # sample_org_line @ LF # B)
       = Some \<lparr>prev = Some (last (str ''City Public Works Department'')), rest = LF # B,
                cap = Some (str ''City Public Works Department'')\<rparr>"
    by (simp add: org_skip_title org_skip_ref sample_org_line_def str_def)
  then have "first_match RE_ORG (sample_title_line @ LF # sample_ref_line @ LF # sample_org_line @ LF # B)
               = Inr (Some (strip (str ''City Public Works Department'')))"
    by (rule first_match_search)
  moreover have "strip (str ''City Public Works Department'') = (str ''City Public Works Department'')"
    by (rule strip_id) (simp_all add: char_eval)
  ultimately show ?thesis by simp
qed

lemma date_skip_title:
  "search RE_DATE p (sample_title_line @ LF # B) = search RE_DATE (Some LF) B"
  by (simp add: sample_title_line_def RE_DATE_def step_eval)

lemma date_skip_ref:
  "search RE_DATE p (sample_ref_line @ LF # B) = search RE_DATE (Some LF) B"
  by (simp add: sample_ref_line_def RE_DATE_def step_eval)

lemma date_skip_org:
  "search RE_DATE p (sample_org_line @ LF # B) = search RE_DATE (Some LF) B"
  by (simp add: sample_org_line_def RE_DATE_def step_eval)

lemma sample_date:
  "first_match RE_DATE sample_text = Inr (Some (str ''30 September 2025''))"
proof -
  have "starts RE_DATE \<lparr>prev = Some LF, rest = (str ''Closing Date'') @ (str '': '') @ (str ''30 September 2025'') @ [], cap = None\<rparr>
           \<lparr>prev = Some (last (str ''30 September 2025'')), rest = [], cap = Some (str ''30 September 2025'')\<rparr>"
    by (rule date_hit) (simp_all add: step_eval)
  then have "search RE_DATE (Some LF) ((str ''Closing Date'') @ (str '': '') @ (str ''30 September 2025'') @ [])
       = Some \<lparr>prev = Some (last (str ''30 September 2025'')), rest = [], cap = Some (str ''30 September 2025'')\<rparr>"
    by (rule search_hit_eq)
  then have "search RE_DATE None sample_text
       = Some \<lparr>prev = Some (last (str ''30 September 2025'')), rest = [], cap = Some (str ''30 September 2025'')\<rparr>"
    by (simp add: sample_text_def date_skip_title date_skip_ref date_skip_org sample_date_line_def str_def)
  then have "first_match RE_DATE sample_text = Inr (Some (strip (str ''30 September 2025'')))"
    by (rule first_match_search)
  moreover have "strip (str ''30 September 2025'') = (str ''30 September 2025'')"
    by (rule strip_id) (simp_all add: char_eval)
  ultimately show ?thesis by simp
qed

subsection \<open>Where the reference pattern cannot match, and what the classes match\<close>

lemma ci_prefix_shorter: "ci_prefix (u @ v) t \<Longrightarrow> ci_prefix u t"
  by (induction u t rule: ci_prefix.induct) simp_all

lemma ref_nomatch:
  assumes "\<not> ci_prefix (str ''Ref'') t" and "\<not> ci_prefix (str ''Tender'') t"
  shows "ms RE_REF \<lparr>prev = p, rest = t, cap = k\<rparr> = []"
proof -
  have "str ''Reference'' = str ''Ref'' @ str ''erence''"
    by (simp add: str_def)
  then have "\<not> ci_prefix (str ''Reference'') t"
    using ci_prefix_shorter [of "str ''Ref''" "str ''erence''" t] assms(1) by auto
  then have "ms ref_labels \<lparr>prev = p, rest = t, cap = k\<rparr> = []"
    using assms by (simp add: ref_labels_def seqs_def ms_lits)
  then show ?thesis by (simp add: RE_REF_split)
qed

lemma ws_match: "atom_match ws c = is_space c"
proof
  assume "atom_match ws c"
  then obtain v where v: "v \<in> set (variants c)" "is_space v"
    by (auto simp: ws_def)
  then show "is_space c"
    using variants_cases [OF v(1)] letter_no_space by blast
next
  assume "is_space c"
  then show "atom_match ws c"
    using self_variant by (auto simp: ws_def)
qed

lemma sep_match: "atom_match sep c = (c = code CHR '':'' \<or> c = code CHR ''-'' \<or> is_space c)"
proof
  assume "atom_match sep c"
  then obtain v where v: "v \<in> set (variants c)" "v = 58 \<or> v = 45 \<or> is_space v"
    by (auto simp: sep_def code_table)
  have "v = c"
    using variants_cases [OF v(1)] v(2) letter_no_space by auto
  then show "c = code CHR '':'' \<or> c = code CHR ''-'' \<or> is_space c"
    using v(2) by (simp add: code_table)
next
  assume "c = code CHR '':'' \<or> c = code CHR ''-'' \<or> is_space c"
  then show "atom_match sep c"
    using self_variant [of c] by (auto simp: sep_def)
qed

lemma ref_alphabet_refch: "ref_alphabet c \<Longrightarrow> atom_match refch c"
  using self_variant [of c] by (auto simp: ref_alphabet_def refch_def)

lemma ref_alphabet_no_space: "ref_alphabet c \<Longrightarrow> \<not> is_space c"
  by (auto simp: ref_alphabet_def is_space_def code_table)

lemma ref_alphabet_no_sep: "ref_alphabet c \<Longrightarrow> c \<noteq> code CHR ''-'' \<Longrightarrow> \<not> atom_match sep c"
  using ref_alphabet_no_space [of c] by (auto simp: sep_match) (auto simp: ref_alphabet_def code_table)

lemma sep_colon_space: "\<forall>c \<in> set (str '': ''). atom_match sep c"
  by (simp add: sep_match char_eval)

subsection \<open>Trimmed lines\<close>

lemma full_view_lines: "full_view text = join_nl (trimmed_lines text)"
  by (simp add: full_view_def trimmed_lines_def)

lemma splitlines_plain_all: "\<forall>l \<in> set (splitlines t). \<forall>c \<in> set l. \<not> is_linebreak c"
proof (induction t rule: splitlines.induct)
  case 1
  then show ?case by simp
next
  case (2 c)
  then show ?case by simp
next
  case (3 a d cs)
  show ?case
  proof (cases "a = CR \<and> d = LF")
    case True
    then show ?thesis using 3(1) by simp
  next
    case False
    note nf = this
    show ?thesis
    proof (cases "is_linebreak a")
      case True
      then show ?thesis using 3(2) [OF nf True] nf by auto
    next
      case False
      have ih: "\<forall>l \<in> set (splitlines (d # cs)). \<forall>c \<in> set l. \<not> is_linebreak c"
        using 3(3) [OF nf False] .
      show ?thesis
      proof (cases "splitlines (d # cs)")
        case Nil
        then show ?thesis using False nf by auto
      next
        case (Cons x xs)
        then show ?thesis using False nf ih by auto
      qed
    qed
  qed
qed

lemma splitlines_plain: "l \<in> set (splitlines t) \<Longrightarrow> c \<in> set l \<Longrightarrow> \<not> is_linebreak c"
  using splitlines_plain_all [of t] by blast

lemma set_strip: "set (strip l) \<subseteq> set l"
proof
  fix x assume "x \<in> set (strip l)"
  then have "x \<in> set (dropWhile is_space (rev (dropWhile is_space l)))"
    by (simp add: strip_def)
  then have "x \<in> set (rev (dropWhile is_space l))"
    by (rule set_dropWhileD)
  then have "x \<in> set (dropWhile is_space l)"
    by simp
  then show "x \<in> set l"
    by (rule set_dropWhileD)
qed

lemma hd_strip: "strip l \<noteq> [] \<Longrightarrow> hd (strip l) = hd (dropWhile is_space l)"
proof -
  assume ne: "strip l \<noteq> []"
  let ?m = "dropWhile is_space l"
  have "rev ?m = takeWhile is_space (rev ?m) @ dropWhile is_space (rev ?m)"
    by simp
  then have "?m = rev (dropWhile is_space (rev ?m)) @ rev (takeWhile is_space (rev ?m))"
    by (metis rev_append rev_rev_ident)
  then have "?m = strip l @ rev (takeWhile is_space (rev ?m))"
    by (simp add: strip_def)
  then show ?thesis using ne by (metis hd_append2)
qed

lemma strip_hd_no_space: "strip l \<noteq> [] \<Longrightarrow> \<not> is_space (hd (strip l))"
proof -
  assume ne: "strip l \<noteq> []"
  have "dropWhile is_space l \<noteq> []"
  proof
    assume e: "dropWhile is_space l = []"
    have "strip l = rev (dropWhile is_space (rev (dropWhile is_space l)))"
      by (simp add: strip_def)
    also have "\<dots> = []"
      unfolding e by simp
    finally show False using ne by simp
  qed
  then have "\<not> is_space (hd (dropWhile is_space l))"
    by (rule hd_dropWhile)
  then show ?thesis using ne by (simp add: hd_strip)
qed

lemma strip_last_no_space: "strip l \<noteq> [] \<Longrightarrow> \<not> is_space (last (strip l))"
proof -
  assume ne: "strip l \<noteq> []"
  let ?d = "dropWhile is_space (rev (dropWhile is_space l))"
  have d: "?d \<noteq> []" using ne by (simp add: strip_def)
  then have "\<not> is_space (hd ?d)" by (rule hd_dropWhile)
  moreover have "last (strip l) = hd ?d"
    using d by (simp add: strip_def last_rev)
  ultimately show ?thesis by simp
qed

lemma strip_spaces_prefix: "\<forall>c \<in> set u. is_space c \<Longrightarrow> strip (u @ v) = strip v"
  by (simp add: strip_def)

lemma trimmed_line:
  assumes "l \<in> set (trimmed_lines text)"
  shows "l \<noteq> []" "\<not> is_space (hd l)" "\<not> is_space (last l)" "LF \<notin> set l"
proof -
  obtain l0 where l0: "l0 \<in> set (splitlines text)" "strip l0 \<noteq> []" "l = strip l0"
    using assms by (auto simp: trimmed_lines_def)
  show "l \<noteq> []" using l0 by simp
  show "\<not> is_space (hd l)" using l0 strip_hd_no_space by simp
  show "\<not> is_space (last l)" using l0 strip_last_no_space by simp
  show "LF \<notin> set l"
  proof
    assume "LF \<in> set l"
    then have "LF \<in> set l0" using l0(3) set_strip by blast
    then show False using splitlines_plain [OF l0(1)] is_linebreak_LF by blast
  qed
qed

subsection \<open>The title pattern, line by line\<close>

lemma ci_prefix_line:
  "ci_prefix s (l @ c # B) \<Longrightarrow> \<forall>a \<in> set s. \<not> atom_match (Lit a) c \<Longrightarrow> ci_prefix s l"
proof (induction s l rule: ci_prefix.induct)
  case (1 t)
  then show ?case by simp
next
  case (2 a s)
  then show ?case by simp
next
  case (3 a s x t)
  then show ?case by simp
qed

lemma title_nomatch:
  assumes "l \<noteq> []" and "\<not> is_space (hd l)"
    and "\<not> ci_prefix (str ''Tender'') (l @ T)" and "\<not> ci_prefix (str ''Title'') (l @ T)"
    and "\<not> ci_prefix (str ''Project'') (l @ T)"
  shows "ms RE_TITLE \<lparr>prev = p, rest = l @ T, cap = k\<rparr> = []"
proof -
  obtain c l' where l: "l = c # l'" using assms(1) by (cases l) auto
  have c: "\<not> atom_match ws c" using assms(2) l by (simp add: ws_match)
  have sp: "ms (Rep ws 0 None) \<lparr>prev = p, rest = l @ T, cap = k\<rparr> = [\<lparr>prev = p, rest = l @ T, cap = k\<rparr>]"
    using c l by (simp del: atom_match.simps)
  have lab: "ms title_labels \<lparr>prev = p, rest = l @ T, cap = k\<rparr> = []"
    using assms(3-5) by (simp add: title_labels_def ms_lits)
  have "ms (Seq (Rep ws 0 None) (Seq title_labels line_tail)) \<lparr>prev = p, rest = l @ T, cap = k\<rparr> = []"
    using sp lab by simp
  then show ?thesis
    by (simp add: RE_TITLE_split)
qed

lemma label_no_LF:
  "\<forall>a \<in> set (str ''Tender''). \<not> atom_match (Lit a) LF"
  "\<forall>a \<in> set (str ''Title''). \<not> atom_match (Lit a) LF"
  "\<forall>a \<in> set (str ''Project''). \<not> atom_match (Lit a) LF"
  by (simp_all add: char_eval)

lemma title_skip_line:
  assumes "l \<noteq> []" and "\<not> is_space (hd l)" and "LF \<notin> set l"
    and "\<not> ci_prefix (str ''Tender'') l" and "\<not> ci_prefix (str ''Title'') l" and "\<not> ci_prefix (str ''Project'') l"
  shows "search RE_TITLE p (l @ LF # B) = search RE_TITLE (Some LF) B"
proof -
  have "ms RE_TITLE \<lparr>prev = p, rest = l @ LF # B, cap = None\<rparr> = []"
    using assms ci_prefix_line label_no_LF by (intro title_nomatch) blast+
  then show ?thesis
    using anchored_skip [OF assms(3), of "Seq (Rep ws 0 None) (Seq title_labels line_tail)" p B]
    by (simp add: RE_TITLE_split)
qed

lemma join_nl_Cons: "ls \<noteq> [] \<Longrightarrow> join_nl (l # ls) = l @ LF # join_nl ls"
  by (cases ls) simp_all

lemma title_skip_lines:
  assumes "\<forall>l \<in> set pre. l \<noteq> [] \<and> \<not> is_space (hd l) \<and> LF \<notin> set l
             \<and> \<not> ci_prefix (str ''Tender'') l \<and> \<not> ci_prefix (str ''Title'') l \<and> \<not> ci_prefix (str ''Project'') l"
  shows "search RE_TITLE p (join_nl (pre @ L # post))
           = search RE_TITLE (if pre = [] then p else Some LF) (join_nl (L # post))"
  using assms
proof (induction pre arbitrary: p)
  case Nil
  then show ?case by simp
next
  case (Cons l pre)
  have "search RE_TITLE p (join_nl ((l # pre) @ L # post))
          = search RE_TITLE p (l @ LF # join_nl (pre @ L # post))"
    by (simp add: join_nl_Cons)
  also have "\<dots> = search RE_TITLE (Some LF) (join_nl (pre @ L # post))"
    using Cons.prems by (intro title_skip_line) simp_all
  also have "\<dots> = search RE_TITLE (if pre = [] then Some LF else Some LF) (join_nl (L # post))"
    using Cons.prems by (intro Cons.IH) simp
  finally show ?case by simp
qed

lemma title_line_hit:
  assumes "p = None \<or> p = Some LF"
    and "LF \<notin> set X" and "strip X \<noteq> []"
    and "3 \<le> length (takeWhile is_space X)
         \<or> (hd (strip X) \<noteq> code CHR '':'' \<and> hd (strip X) \<noteq> code CHR ''-'')"
    and "R = [] \<or> hd R = LF"
  shows "\<exists>q G. starts RE_TITLE \<lparr>prev = p, rest = ((str ''Tender Title: '') @ X) @ R, cap = None\<rparr>
                  \<lparr>prev = q, rest = R, cap = Some G\<rparr> \<and> strip G = strip X"
proof -
  define sp where "sp = takeWhile is_space X"
  define Y where "Y = dropWhile is_space X"
  define S where "S = take 5 ((str '': '') @ sp)"
  define G where "G = drop 3 sp @ Y"
  have X: "X = sp @ Y" by (simp add: sp_def Y_def)
  have sp: "\<forall>c \<in> set sp. is_space c"
    unfolding sp_def by (blast dest: set_takeWhileD)
  have Y: "Y \<noteq> []"
  proof
    assume e: "Y = []"
    have "strip X = rev (dropWhile is_space (rev Y))" by (simp add: strip_def Y_def)
    then show False using assms(3) e by simp
  qed
  have hdY: "\<not> is_space (hd Y)"
    using Y unfolding Y_def by (rule hd_dropWhile)
  have hdX: "hd (strip X) = hd Y"
    using assms(3) by (simp add: hd_strip Y_def)
  have SG: "S @ G = (str '': '') @ X"
  proof -
    have "drop 5 ((str '': '') @ sp) = drop 3 sp" by (simp add: str_def)
    then have "S @ G = ((str '': '') @ sp) @ Y"
      unfolding S_def G_def by (metis append_assoc append_take_drop_id)
    then show ?thesis using X by simp
  qed
  have 1: "\<forall>c \<in> set S. atom_match sep c"
  proof
    fix c assume "c \<in> set S"
    then have "c \<in> set ((str '': '') @ sp)" unfolding S_def by (rule in_set_takeD)
    then show "atom_match sep c" using sp by (auto simp: sep_match str_def is_space_def code_table)
  qed
  have 2: "length S \<le> 5" by (simp add: S_def)
  have 3: "G \<noteq> []" using Y by (simp add: G_def)
  have 4: "LF \<notin> set G"
  proof
    assume "LF \<in> set G"
    then have "LF \<in> set sp \<or> LF \<in> set Y" by (auto simp: G_def dest: in_set_dropD)
    then show False using assms(2) X by auto
  qed
  have 5: "length S = 5 \<or> \<not> atom_match sep (hd G)"
  proof (cases "3 \<le> length sp")
    case True
    then show ?thesis by (simp add: S_def str_def)
  next
    case False
    then have "G = Y" by (simp add: G_def)
    moreover have "hd (strip X) \<noteq> code CHR '':'' \<and> hd (strip X) \<noteq> code CHR ''-''"
      using False assms(4) by (simp add: sp_def)
    ultimately show ?thesis using hdY hdX by (simp add: sep_match)
  qed
  have "starts RE_TITLE \<lparr>prev = p, rest = (str ''Tender Title'') @ S @ G @ R, cap = None\<rparr>
           \<lparr>prev = Some (last G), rest = R, cap = Some G\<rparr>"
    using assms(1) 1 2 3 4 5 assms(5) by (rule title_hit)
  moreover have "(str ''Tender Title'') @ S @ G @ R = ((str ''Tender Title: '') @ X) @ R"
    using SG by (simp add: str_def)
  moreover have "strip G = strip X"
  proof -
    have "\<forall>c \<in> set (drop 3 sp). is_space c" using sp by (auto dest: in_set_dropD)
    then have "strip G = strip Y" unfolding G_def by (rule strip_spaces_prefix)
    also have "\<dots> = strip X" using sp X strip_spaces_prefix by metis
    finally show ?thesis .
  qed
  ultimately show ?thesis by metis
qed

text \<open>Rules that run the parser on a literal text.\<close>

lemmas parse_eval = parse_tender_text_def full_view_def normalize_date_def Let_def index0_def run_eval

text \<open>The sample, written out.\<close>

lemma sample_text_literal:
  "sample_text = (str ''Tender Title: Construction of New Bridge'') @ [LF]
                 @ (str ''Reference: TB-2025-00123'') @ [LF]
                 @ (str ''Issuing Organization: City Public Works Department'') @ [LF]
                 @ (str ''Closing Date: 30 September 2025'')"
  by (simp add: sample_text_def sample_lines)


text \<open>The class of the reference pattern under IGNORECASE, over all code points.\<close>

lemma refch_match: "atom_match refch c = ref_class c"
  unfolding refch_def ref_class_def
  by (auto simp: variants_def ci_fold_def ci_unfold_def code_table)

text \<open>
  The reference pattern matches at no position of a stretch of text in which neither
  \<open>Ref\<close> nor \<open>Tender\<close> begins, in any letter case.
\<close>

lemma unmatched_no_label:
  "\<forall>i < length P. \<not> ci_prefix (str ''Ref'') (drop i (P @ B))
                     \<and> \<not> ci_prefix (str ''Tender'') (drop i (P @ B))
   \<Longrightarrow> unmatched RE_REF p P B"
proof (induction P arbitrary: p)
  case Nil
  then show ?case by simp
next
  case (Cons c A)
  have "\<not> ci_prefix (str ''Ref'') (c # A @ B) \<and> \<not> ci_prefix (str ''Tender'') (c # A @ B)"
    using Cons.prems by (auto dest: spec [where x = 0])
  then have "ms RE_REF \<lparr>prev = p, rest = c # A @ B, cap = None\<rparr> = []"
    by (simp add: ref_nomatch)
  moreover have "\<forall>i < length A. \<not> ci_prefix (str ''Ref'') (drop i (A @ B))
                     \<and> \<not> ci_prefix (str ''Tender'') (drop i (A @ B))"
  proof (intro allI impI)
    fix i assume "i < length A"
    then have "Suc i < length (c # A)" by simp
    then have "\<not> ci_prefix (str ''Ref'') (drop (Suc i) ((c # A) @ B))
               \<and> \<not> ci_prefix (str ''Tender'') (drop (Suc i) ((c # A) @ B))"
      using Cons.prems by blast
    then show "\<not> ci_prefix (str ''Ref'') (drop i (A @ B))
               \<and> \<not> ci_prefix (str ''Tender'') (drop i (A @ B))"
      by simp
  qed
  ultimately show ?case using Cons.IH by simp
qed

text \<open>The reference pattern matches nowhere in the first line of the sample.\<close>

lemma ref_unmatched_title: "unmatched RE_REF None (sample_title_line @ [LF]) B"
  by (simp add: sample_title_line_def RE_REF_def step_eval)

section \<open>The claims\<close>

subsection \<open>The end-to-end sample\<close>

text \<open>
  C1. For the four-line sample, \<open>parse_tender_text\<close> returns the title
  \<open>Construction of New Bridge\<close>, the reference \<open>TB-2025-00123\<close>, the organization
  \<open>City Public Works Department\<close>, and as closing date the raw \<open>30 September 2025\<close> when
  the date library is missing, or whatever ISO string the library renders it to when it
  is present (\<open>2025-09-30T00:00:00\<close> for dateutil).
\<close>

theorem sample_parse:
  "\<exists>d. parse_tender_text dp sample_text =
          Inr [(''title'', Some (str ''Construction of New Bridge'')),
               (''reference'', Some (str ''TB-2025-00123'')),
               (''organization'', Some (str ''City Public Works Department'')),
               (''closing_date'', d)]
        \<and> (dp = None \<longrightarrow> d = Some (str ''30 September 2025''))
        \<and> (\<forall>parse stamp. dp = Some parse \<and> parse (str ''30 September 2025'') = Inr stamp \<longrightarrow> d = Some stamp)"
proof -
  have t: "first_match RE_TITLE sample_text = Inr (Some (str ''Construction of New Bridge''))"
    unfolding sample_text_def by (rule sample_title)
  have r: "first_match RE_REF sample_text = Inr (Some (str ''TB-2025-00123''))"
    unfolding sample_text_def by (rule sample_ref)
  have g: "first_match RE_ORG sample_text = Inr (Some (str ''City Public Works Department''))"
    unfolding sample_text_def by (rule sample_org)
  show ?thesis
    by (auto simp: parse_tender_text_def Let_def full_view_sample t r g sample_date normalize_date_def)
qed

text \<open>Without the date library, and with one that answers as dateutil does.\<close>

theorem sample_parse_witness:
  "parse_tender_text None sample_text =
     Inr [(''title'', Some (str ''Construction of New Bridge'')),
          (''reference'', Some (str ''TB-2025-00123'')),
          (''organization'', Some (str ''City Public Works Department'')),
          (''closing_date'', Some (str ''30 September 2025''))]
   \<and> parse_tender_text (Some (\<lambda>s. Inr (str ''2025-09-30T00:00:00''))) sample_text =
     Inr [(''title'', Some (str ''Construction of New Bridge'')),
          (''reference'', Some (str ''TB-2025-00123'')),
          (''organization'', Some (str ''City Public Works Department'')),
          (''closing_date'', Some (str ''2025-09-30T00:00:00''))]"
  using sample_parse [of None] sample_parse [of "Some (\<lambda>s. Inr (str ''2025-09-30T00:00:00''))"]
  by auto

subsection \<open>Labelled title and reference\<close>

text \<open>
  C2 as claimed fails in three ways. The first match in the text wins, so an earlier
  \<open>Title:\<close> line takes the title, also when it is written with a dotless i (U+0131),
  which IGNORECASE reads as \<open>i\<close>. The separator class takes up to five of \<open>:\<close>, \<open>-\<close> and
  white space, so a leading \<open>-\<close> of \<open>X\<close> is lost. And with nothing after the label, the
  pattern backtracks and the title is the colon.
\<close>

theorem title_claim_fails:
  "parse_tender_text None (str ''Title: A'' @ LF # str ''Tender Title: B'') =
     Inr [(''title'', Some (str ''A'')), (''reference'', None), (''organization'', None), (''closing_date'', None)]
   \<and> parse_tender_text None (code CHR ''T'' # 0x131 # str ''tle: A'' @ LF # str ''Tender Title: B'') =
     Inr [(''title'', Some (str ''A'')), (''reference'', None), (''organization'', None), (''closing_date'', None)]
   \<and> parse_tender_text None (str ''Tender Title: -Bridge works'') =
     Inr [(''title'', Some (str ''Bridge works'')), (''reference'', None), (''organization'', None), (''closing_date'', None)]
   \<and> parse_tender_text None (str ''Tender Title: '') =
     Inr [(''title'', Some (str '':'')), (''reference'', None), (''organization'', None), (''closing_date'', None)]"
  by (simp add: parse_eval)

text \<open>
  C2, amended. When the trimmed non-blank lines of the text contain the line
  \<open>Tender Title: X\<close>, no earlier one of them begins with \<open>Tender\<close>, \<open>Title\<close> or
  \<open>Project\<close> as IGNORECASE reads these words (in any letter case, and with U+0130 or
  U+0131 for the \<open>i\<close>), and \<open>X\<close> trimmed is non-empty and either does not begin with
  \<open>:\<close> or \<open>-\<close> or stands after at least three white space characters, the title is \<open>X\<close>
  trimmed.
\<close>

theorem labelled_title:
  assumes "trimmed_lines text = pre @ (str ''Tender Title: '' @ X) # post"
    and "\<forall>l \<in> set pre. \<not> title_labelled l"
    and "strip X \<noteq> []"
    and "3 \<le> length (takeWhile is_space X)
         \<or> (hd (strip X) \<noteq> code CHR '':'' \<and> hd (strip X) \<noteq> code CHR ''-'')"
  shows "\<exists>r g d. parse_tender_text dp text =
           Inr [(''title'', Some (strip X)), (''reference'', r), (''organization'', g), (''closing_date'', d)]"
proof -
  let ?L = "str ''Tender Title: '' @ X"
  define R where "R = (if post = [] then [] else LF # join_nl post)"
  have jl: "join_nl (?L # post) = ?L @ R"
    by (cases post) (simp_all add: R_def)
  have R: "R = [] \<or> hd R = LF" by (simp add: R_def)
  have pre: "\<forall>l \<in> set pre. l \<noteq> [] \<and> \<not> is_space (hd l) \<and> LF \<notin> set l
             \<and> \<not> ci_prefix (str ''Tender'') l \<and> \<not> ci_prefix (str ''Title'') l
             \<and> \<not> ci_prefix (str ''Project'') l"
  proof
    fix l assume l: "l \<in> set pre"
    then have "l \<in> set (trimmed_lines text)" using assms(1) by simp
    moreover have "\<not> title_labelled l" using assms(2) l by blast
    ultimately show "l \<noteq> [] \<and> \<not> is_space (hd l) \<and> LF \<notin> set l
             \<and> \<not> ci_prefix (str ''Tender'') l \<and> \<not> ci_prefix (str ''Title'') l
             \<and> \<not> ci_prefix (str ''Project'') l"
      using trimmed_line by (simp add: title_labelled_def)
  qed
  have "?L \<in> set (trimmed_lines text)" using assms(1) by simp
  then have "LF \<notin> set ?L" by (rule trimmed_line(4))
  then have noLF: "LF \<notin> set X" by simp
  define q where "q = (if pre = [] then None else Some LF)"
  have q: "q = None \<or> q = Some LF" by (simp add: q_def)
  have skip: "search RE_TITLE None (join_nl (pre @ ?L # post)) = search RE_TITLE q (?L @ R)"
    using title_skip_lines [OF pre, of None ?L post] jl by (simp add: q_def)
  obtain q' G where hit: "starts RE_TITLE \<lparr>prev = q, rest = ?L @ R, cap = None\<rparr>
                  \<lparr>prev = q', rest = R, cap = Some G\<rparr>" and G: "strip G = strip X"
    using title_line_hit [OF q noLF assms(3,4) R] by blast
  have "search RE_TITLE q (?L @ R) = Some \<lparr>prev = q', rest = R, cap = Some G\<rparr>"
    using hit by (rule search_hit_eq)
  then have t: "first_match RE_TITLE (full_view text) = Inr (Some (strip X))"
    using skip assms(1) G by (simp add: first_match_def full_view_lines)
  obtain r where r: "first_match RE_REF (full_view text) = Inr r"
    using first_match_total has_group_patterns(2) by blast
  obtain g where g: "first_match RE_ORG (full_view text) = Inr g"
    using first_match_total has_group_patterns(3) by blast
  obtain d where d: "first_match RE_DATE (full_view text) = Inr d"
    using first_match_total has_group_patterns(4) by blast
  show ?thesis
    using t r g d assms(3) by (simp add: parse_tender_text_def Let_def)
qed

text \<open>
  An unlabelled line first; the labelled line indented, and \<open>X\<close> a dash after three
  spaces, with a space behind it.
\<close>

theorem labelled_title_witness:
  "\<exists>r g d. parse_tender_text None (str ''Notice 7'' @ LF # str ''  Tender Title:    - Bridge works  '') =
     Inr [(''title'', Some (str ''- Bridge works'')), (''reference'', r), (''organization'', g), (''closing_date'', d)]"
proof -
  have 1: "trimmed_lines (str ''Notice 7'' @ LF # str ''  Tender Title:    - Bridge works  '')
             = [str ''Notice 7''] @ (str ''Tender Title: '' @ str ''   - Bridge works'') # []"
    by (simp add: trimmed_lines_def strip_def char_eval)
  have 2: "\<forall>l \<in> set [str ''Notice 7'']. \<not> title_labelled l"
    by (simp add: title_labelled_def char_eval)
  have 3: "strip (str ''   - Bridge works'') = str ''- Bridge works''"
    by (simp add: strip_def char_eval)
  have 4: "strip (str ''   - Bridge works'') \<noteq> []"
    by (simp add: 3)
  have 5: "3 \<le> length (takeWhile is_space (str ''   - Bridge works''))
         \<or> (hd (strip (str ''   - Bridge works'')) \<noteq> code CHR '':''
            \<and> hd (strip (str ''   - Bridge works'')) \<noteq> code CHR ''-'')"
    by (simp add: char_eval)
  show ?thesis
    using labelled_title [OF 1 2 4 5, of None] by (simp only: 3)
qed

text \<open>
  C3 as claimed fails in three ways. The first match wins, so an earlier \<open>Ref:\<close> takes
  the reference. A leading \<open>-\<close> of \<open>X\<close> goes to the separator. And the class is matched
  without regard to case and greedily, so \<open>X\<close> followed by a lowercase letter, or by a
  long s (U+017F), which IGNORECASE reads as \<open>s\<close>, is not all that is captured.
\<close>

theorem reference_claim_fails:
  "parse_tender_text None (str ''Ref: A1'' @ LF # str ''Reference: B2'') =
     Inr [(''title'', Some (str ''Reference: B2'')), (''reference'', Some (str ''A1'')),
          (''organization'', None), (''closing_date'', None)]
   \<and> parse_tender_text None (str ''Reference: -A'') =
     Inr [(''title'', Some (str ''Reference: -A'')), (''reference'', Some (str ''A'')),
          (''organization'', None), (''closing_date'', None)]
   \<and> parse_tender_text None (str ''Reference: AB12c'') =
     Inr [(''title'', Some (str ''Reference: AB12c'')), (''reference'', Some (str ''AB12c'')),
          (''organization'', None), (''closing_date'', None)]
   \<and> parse_tender_text None (str ''Reference: AB12'' @ [0x17F]) =
     Inr [(''title'', Some (str ''Reference: AB12'' @ [0x17F])), (''reference'', Some (str ''AB12'' @ [0x17F])),
          (''organization'', None), (''closing_date'', None)]"
  by (simp add: parse_eval)

text \<open>
  C3, amended. When the trimmed view of the text reads \<open>P\<close>, then \<open>Reference: X\<close>, then
  \<open>Q\<close>, where the reference pattern matches at no position inside \<open>P\<close> (as when neither
  \<open>Ref\<close> nor \<open>Tender\<close> begins there: \<open>unmatched_no_label\<close>), \<open>X\<close> is a non-empty string over \<open>[A-Z0-9\-_/]\<close> that does not begin with \<open>-\<close>, and \<open>Q\<close> is empty
  or begins with a character that the class does not match under IGNORECASE (by
  \<open>refch_match\<close>: a character other than a letter \<open>A-Z\<close> or \<open>a-z\<close>, a digit, \<open>-\<close>, \<open>_\<close>,
  \<open>/\<close>, U+0130, U+0131, U+017F and U+212A), the reference is \<open>X\<close>.
\<close>

theorem labelled_reference:
  assumes "full_view text = P @ str ''Reference: '' @ X @ Q"
    and "unmatched RE_REF None P (str ''Reference: '' @ X @ Q)"
    and "X \<noteq> []" and "\<forall>c \<in> set X. ref_alphabet c" and "hd X \<noteq> code CHR ''-''"
    and "Q = [] \<or> \<not> atom_match refch (hd Q)"
  shows "\<exists>t g d. parse_tender_text dp text =
           Inr [(''title'', t), (''reference'', Some X), (''organization'', g), (''closing_date'', d)]"
proof -
  let ?rest = "str ''Reference'' @ str '': '' @ X @ Q"
  have split: "str ''Reference: '' = str ''Reference'' @ str '': ''"
    by (simp add: str_def)
  have fv: "full_view text = P @ ?rest"
    using assms(1) split by simp
  have skip: "search RE_REF None (P @ ?rest) = search RE_REF (lastp None P) ?rest"
    using assms(2) split search_unmatched [of RE_REF None P ?rest] by simp
  have "hd X \<in> set X" using assms(3) by simp
  then have "\<not> atom_match sep (hd X)"
    using assms(4,5) ref_alphabet_no_sep by blast
  then have "starts RE_REF \<lparr>prev = lastp None P, rest = ?rest, cap = None\<rparr>
               \<lparr>prev = Some (last X), rest = Q, cap = Some X\<rparr>"
    using assms(3,4,6) sep_colon_space ref_alphabet_refch by (intro ref_hit) auto
  then have "search RE_REF (lastp None P) ?rest = Some \<lparr>prev = Some (last X), rest = Q, cap = Some X\<rparr>"
    by (rule search_hit_eq)
  then have "first_match RE_REF (full_view text) = Inr (Some (strip X))"
    using skip fv by (simp add: first_match_def)
  moreover have "strip X = X"
    using assms(3,4) ref_alphabet_no_space by (intro strip_id) auto
  ultimately have r: "first_match RE_REF (full_view text) = Inr (Some X)"
    by simp
  obtain t where t: "first_match RE_TITLE (full_view text) = Inr t"
    using first_match_total has_group_patterns(1) by blast
  obtain g where g: "first_match RE_ORG (full_view text) = Inr g"
    using first_match_total has_group_patterns(3) by blast
  obtain d where d: "first_match RE_DATE (full_view text) = Inr d"
    using first_match_total has_group_patterns(4) by blast
  obtain t' where t': "title_fallback t (splitlines text) = Inr t'"
    using title_fallback_total by blast
  show ?thesis
    using t r g d t' by (simp add: parse_tender_text_def Let_def)
qed

text \<open>
  The four-line sample: \<open>P\<close> is its title line, which begins with \<open>Tender\<close>, and \<open>Q\<close> the
  two lines after the reference.
\<close>

theorem labelled_reference_witness:
  "\<exists>t g d. parse_tender_text None sample_text =
     Inr [(''title'', t), (''reference'', Some (str ''TB-2025-00123'')), (''organization'', g), (''closing_date'', d)]"
proof -
  let ?Q = "LF # sample_org_line @ LF # sample_date_line"
  have 1: "full_view sample_text = (sample_title_line @ [LF]) @ str ''Reference: '' @ str ''TB-2025-00123'' @ ?Q"
    unfolding full_view_sample by (simp add: sample_text_def sample_ref_line_def str_def)
  have 2: "unmatched RE_REF None (sample_title_line @ [LF]) (str ''Reference: '' @ str ''TB-2025-00123'' @ ?Q)"
    by (rule ref_unmatched_title)
  have 3: "str ''TB-2025-00123'' \<noteq> []" "\<forall>c \<in> set (str ''TB-2025-00123''). ref_alphabet c"
    "hd (str ''TB-2025-00123'') \<noteq> code CHR ''-''"
    "?Q = [] \<or> \<not> atom_match refch (hd ?Q)"
    by (simp_all add: ref_alphabet_def refch_def char_eval)
  show ?thesis
    using labelled_reference [OF 1 2 3, of None] by simp
qed

subsection \<open>Extraction\<close>

text \<open>
  C4. Claimed: a failure of page rasterization or of the OCR engine on one page becomes the
  empty string for that page and never aborts the extraction. The OCR branch of the
  page loop has no handler, unlike the embedded-text branch: with one blank page and an
  OCR engine that raises, the whole extraction ends with that exception.
\<close>

theorem ocr_failure_aborts:
  "extract_text_from_pdf env_ocr_fails (str ''t.pdf'') False 200 = Inl (LibError (str ''tesseract is not installed''))"
  by (simp add: extract_text_from_pdf_def env_ocr_fails_def page_text_def page_blank_def strip_def)

text \<open>The embedded-text branch does absorb its failure: the page becomes the empty string.\<close>

lemma text_failure_absorbed:
  "extract_text_from_pdf env_text_fails (str ''t.pdf'') False 200 = Inr []"
  by (simp add: extract_text_from_pdf_def env_text_fails_def page_text_def page_blank_def)

text \<open>
  C10. When the OCR engine or the imaging library is missing and OCR is forced, every page
  of a document that opened and whose pages loaded contributes the empty string: the
  result is \<open>n - 1\<close> line feeds for \<open>n\<close> pages, the empty string for \<open>n \<le> 1\<close>.
\<close>

theorem extract_without_ocr:
  assumes "fitz e = Some open_doc" and "open_doc path = Inr doc"
    and "\<forall>l \<in> set doc. \<exists>pg. l = Inr pg"
    and "pytesseract e = None \<or> Image e = None"
  shows "extract_text_from_pdf e path True dpi = Inr (replicate (length doc - 1) LF)"
proof -
  have pt: "page_text e True dpi pg = Inr []" for pg
    using assms(4) by (auto simp: page_text_def split: option.splits)
  have "pages_text e True dpi doc = Inr (replicate (length doc) [])"
    using assms(3) by (induction doc) (auto simp: pt)
  moreover have "join_nl (replicate n []) = replicate (n - 1) LF" for n
    using join_nl_blank [of "n - 1"] by (cases n) simp_all
  ultimately show ?thesis using assms(1,2) by (simp add: extract_text_from_pdf_def)
qed

text \<open>The three-page document without OCR yields two line feeds.\<close>

theorem extract_without_ocr_witness:
  "extract_text_from_pdf env_no_ocr (str ''t.pdf'') True 200 = Inr [LF, LF]"
  using extract_without_ocr [of env_no_ocr "\<lambda>path. Inr [Inr page_blank, Inr page_blank, Inr page_blank]"
      "(str ''t.pdf'')" "[Inr page_blank, Inr page_blank, Inr page_blank]" 200]
  by (simp add: env_no_ocr_def)

subsection \<open>The parser never fails\<close>

text \<open>
  C9. For every text, \<open>parse_tender_text\<close> returns (it raises neither on \<open>m.group(1)\<close> nor
  on \<open>s[0]\<close>) a dict with exactly the keys title, reference, organization and
  closing_date, in that order, each value a string or \<open>None\<close>.
\<close>

theorem parse_total:
  "\<exists>t r g d. parse_tender_text dp text =
     Inr [(''title'', t), (''reference'', r), (''organization'', g), (''closing_date'', d)]"
proof -
  obtain t where t: "first_match RE_TITLE (full_view text) = Inr t"
    using first_match_total has_group_patterns(1) by blast
  obtain r where r: "first_match RE_REF (full_view text) = Inr r"
    using first_match_total has_group_patterns(2) by blast
  obtain g where g: "first_match RE_ORG (full_view text) = Inr g"
    using first_match_total has_group_patterns(3) by blast
  obtain d where d: "first_match RE_DATE (full_view text) = Inr d"
    using first_match_total has_group_patterns(4) by blast
  obtain t' where t': "title_fallback t (splitlines text) = Inr t'"
    using title_fallback_total by blast
  show ?thesis
    using t r g d t' by (simp add: parse_tender_text_def Let_def)
qed

text \<open>The empty text.\<close>

theorem parse_total_witness:
  "\<exists>t r g d. parse_tender_text None [] =
     Inr [(''title'', t), (''reference'', r), (''organization'', g), (''closing_date'', d)]"
  using parse_total [of None "[]"] by simp

subsection \<open>The secondary title heuristic\<close>

text \<open>
  C5. When the title pattern matches nowhere, the title is the first line, in the order
  of the original lines, whose trimmed form is non-empty, longer than 10 characters and
  starts with an uppercase character; that trimmed line is the value, and the title is
  \<open>None\<close> when there is no such line.
\<close>

theorem title_fallback_rule:
  assumes "first_match RE_TITLE (full_view text) = Inr None"
  shows "\<exists>r g d. parse_tender_text dp text =
     Inr [(''title'', find title_candidate (map strip (splitlines text))),
          (''reference'', r), (''organization'', g), (''closing_date'', d)]"
proof -
  obtain r where r: "first_match RE_REF (full_view text) = Inr r"
    using first_match_total has_group_patterns(2) by blast
  obtain g where g: "first_match RE_ORG (full_view text) = Inr g"
    using first_match_total has_group_patterns(3) by blast
  obtain d where d: "first_match RE_DATE (full_view text) = Inr d"
    using first_match_total has_group_patterns(4) by blast
  show ?thesis
    using assms r g d by (simp add: parse_tender_text_def Let_def title_fallback_find)
qed

text \<open>A lowercase line is passed over; the indented heading after it is taken, trimmed.\<close>

theorem title_fallback_rule_witness:
  "first_match RE_TITLE (full_view ((str ''see the notice'') @ [LF] @ (str ''  Road repair works''))) = Inr None
   \<and> (\<exists>r g d. parse_tender_text None ((str ''see the notice'') @ [LF] @ (str ''  Road repair works'')) =
         Inr [(''title'', Some (str ''Road repair works'')),
              (''reference'', r), (''organization'', g), (''closing_date'', d)])"
proof -
  have h: "first_match RE_TITLE (full_view ((str ''see the notice'') @ [LF] @ (str ''  Road repair works''))) = Inr None"
    by (simp add: full_view_def run_eval)
  have f: "find title_candidate (map strip (splitlines ((str ''see the notice'') @ [LF] @ (str ''  Road repair works''))))
           = Some (str ''Road repair works'')"
    by (simp add: title_candidate_def run_eval)
  show ?thesis using h title_fallback_rule [OF h, of None] by (simp only: f)
qed

subsection \<open>Date normalization\<close>

text \<open>
  C6 as claimed fails on the empty string, which is not null: without a date library the
  claim has it returned unchanged, the code returns \<open>None\<close>.
\<close>

theorem normalize_date_empty: "normalize_date None (Some []) \<noteq> Some []"
  by (simp add: normalize_date_def)

text \<open>
  C6, amended. \<open>normalize_date\<close> returns \<open>None\<close> for \<open>None\<close> and for the empty string. For a
  non-empty string it returns the string unchanged when the date library is missing or
  its parser raises, and the ISO rendering of the parsed timestamp otherwise. It has no
  other outcome: the parser's exception is a value it handles.
\<close>

theorem normalize_date_cases:
  "normalize_date dp None = None
   \<and> normalize_date dp (Some []) = None
   \<and> (s \<noteq> [] \<longrightarrow> normalize_date None (Some s) = Some s)
   \<and> (s \<noteq> [] \<and> parse s = Inl ex \<longrightarrow> normalize_date (Some parse) (Some s) = Some s)
   \<and> (s \<noteq> [] \<and> parse s = Inr stamp \<longrightarrow> normalize_date (Some parse) (Some s) = Some stamp)"
  by (simp add: normalize_date_def)

text \<open>No library; a parser that raises; a parser that succeeds.\<close>

theorem normalize_date_cases_witness:
  "normalize_date None (Some (str ''30 September 2025'')) = Some (str ''30 September 2025'')
   \<and> normalize_date (Some (\<lambda>s. Inl (LibError (str ''Unknown string format'')))) (Some (str ''soon'')) = Some (str ''soon'')
   \<and> normalize_date (Some (\<lambda>s. Inr (str ''2025-09-30T00:00:00''))) (Some (str ''30 September 2025''))
       = Some (str ''2025-09-30T00:00:00'')"
  using normalize_date_cases [of None "(str ''30 September 2025'')" "\<lambda>s. Inr []" "LibError []" "[]"]
    normalize_date_cases [of None "(str ''soon'')" "\<lambda>s. Inl (LibError (str ''Unknown string format''))"
                             "LibError (str ''Unknown string format'')" "[]"]
    normalize_date_cases [of None "(str ''30 September 2025'')" "\<lambda>s. Inr (str ''2025-09-30T00:00:00'')"
                             "LibError []" "(str ''2025-09-30T00:00:00'')"]
  by simp

subsection \<open>The command line\<close>



text \<open>
  The same handler catches what the printing of a result raises, since both \<open>print\<close>
  branches stand inside the \<open>try\<close>: when standard output breaks after the first line, that
  line is out, the error stream has the message, and the status is 1.
\<close>

lemma print_failure_caught:
  "main env_no_ocr (\<lambda>r. Inr []) stdout_breaks stderr_open
        \<lparr>arg_path = str ''t.pdf'', arg_json = False, arg_ocr = False, arg_dpi = 200\<rparr>
     = \<lparr>out_lines = [str ''Analyzed: '' @ str ''t.pdf''], err_lines = [str ''Error: '' @ str ''Broken pipe''],
        exit_status = 1, uncaught = None\<rparr>"
proof -
  have x: "extract_text_from_pdf env_no_ocr (str ''t.pdf'') False 200 = Inr [LF, LF]"
    by (simp add: extract_text_from_pdf_def env_no_ocr_def page_text_def page_blank_def)
  have p: "parse_tender_text None [LF, LF]
             = Inr [(''title'', None), (''reference'', None), (''organization'', None), (''closing_date'', None)]"
    by (simp add: parse_tender_text_def full_view_def normalize_date_def run_eval)
  have "analyze_file env_no_ocr (str ''t.pdf'') False 200
          = Inr \<lparr>a_path = str ''t.pdf'',
                 a_parsed = [(''title'', None), (''reference'', None), (''organization'', None), (''closing_date'', None)],
                 a_text_snippet = [LF, LF]\<rparr>"
    using x p by (simp add: analyze_file_def env_no_ocr_def)
  then show ?thesis
    by (simp add: main_def stdout_breaks_def stderr_open_def failed_def)
qed

subsection \<open>Determinism\<close>

text \<open>
  C8 as claimed fails when the date library is present: it fills the fields a date string
  does not give from the current date, so the same text parsed on two days of different
  years yields two closing dates.
\<close>

theorem parse_differs_across_days:
  "parse_tender_text (Some (year_filling (str ''2025-11-03''))) (str ''Deadline: 5 May'') =
     Inr [(''title'', Some (str ''Deadline: 5 May'')), (''reference'', None), (''organization'', None),
          (''closing_date'', Some (str ''2025-05-05T00:00:00''))]
   \<and> parse_tender_text (Some (year_filling (str ''2026-01-02''))) (str ''Deadline: 5 May'') =
     Inr [(''title'', Some (str ''Deadline: 5 May'')), (''reference'', None), (''organization'', None),
          (''closing_date'', Some (str ''2026-05-05T00:00:00''))]"
  by (simp add: parse_eval year_filling_def)

text \<open>
  C8, amended. Two applications of \<open>parse_tender_text\<close> to the same text yield the same
  title, reference and organization and capture the same date string, whatever the date
  library is at each of them; the closing date of each is that one string as the library
  normalizes it at that application, so the two records are identical exactly when the
  two normalizations are.
\<close>

theorem parse_same_fields:
  "\<exists>t r g raw. first_match RE_DATE (full_view text) = Inr raw
     \<and> parse_tender_text dp1 text =
         Inr [(''title'', t), (''reference'', r), (''organization'', g),
              (''closing_date'', normalize_date dp1 raw)]
     \<and> parse_tender_text dp2 text =
         Inr [(''title'', t), (''reference'', r), (''organization'', g),
              (''closing_date'', normalize_date dp2 raw)]
     \<and> ((parse_tender_text dp1 text = parse_tender_text dp2 text)
          = (normalize_date dp1 raw = normalize_date dp2 raw))"
proof -
  obtain t where t: "first_match RE_TITLE (full_view text) = Inr t"
    using first_match_total has_group_patterns(1) by blast
  obtain r where r: "first_match RE_REF (full_view text) = Inr r"
    using first_match_total has_group_patterns(2) by blast
  obtain g where g: "first_match RE_ORG (full_view text) = Inr g"
    using first_match_total has_group_patterns(3) by blast
  obtain raw where d: "first_match RE_DATE (full_view text) = Inr raw"
    using first_match_total has_group_patterns(4) by blast
  obtain t' where t': "title_fallback t (splitlines text) = Inr t'"
    using title_fallback_total by blast
  have "parse_tender_text dp text =
         Inr [(''title'', if truthy t then t else t'), (''reference'', r), (''organization'', g),
              (''closing_date'', normalize_date dp raw)]" for dp
    using t r g d t' by (simp add: parse_tender_text_def Let_def)
  then show ?thesis using d by auto
qed

text \<open>
  A date that gives its year, parsed on two days of different years with the library
  present: the records are identical, closing date included.
\<close>

theorem parse_same_fields_witness:
  "parse_tender_text (Some (year_filling (str ''2025-11-03''))) (str ''Closing Date: 30 September 2025'') =
     Inr [(''title'', Some (str ''Closing Date: 30 September 2025'')), (''reference'', None),
          (''organization'', None), (''closing_date'', Some (str ''2025-09-30T00:00:00''))]
   \<and> parse_tender_text (Some (year_filling (str ''2026-01-02''))) (str ''Closing Date: 30 September 2025'') =
     Inr [(''title'', Some (str ''Closing Date: 30 September 2025'')), (''reference'', None),
          (''organization'', None), (''closing_date'', Some (str ''2025-09-30T00:00:00''))]"
proof -
  let ?T = "str ''Closing Date: 30 September 2025''"
  let ?d1 = "Some (year_filling (str ''2025-11-03''))"
  let ?d2 = "Some (year_filling (str ''2026-01-02''))"
  obtain t r g raw where raw: "first_match RE_DATE (full_view ?T) = Inr raw"
    and p1: "parse_tender_text ?d1 ?T =
         Inr [(''title'', t), (''reference'', r), (''organization'', g), (''closing_date'', normalize_date ?d1 raw)]"
    and p2: "parse_tender_text ?d2 ?T =
         Inr [(''title'', t), (''reference'', r), (''organization'', g), (''closing_date'', normalize_date ?d2 raw)]"
    using parse_same_fields [of ?T ?d1 ?d2] by blast
  have e: "parse_tender_text ?d1 ?T =
     Inr [(''title'', Some ?T), (''reference'', None), (''organization'', None),
          (''closing_date'', Some (str ''2025-09-30T00:00:00''))]"
    by (simp add: parse_eval year_filling_def)
  have "first_match RE_DATE (full_view ?T) = Inr (Some (str ''30 September 2025''))"
    by (simp add: full_view_def run_eval)
  then have "raw = Some (str ''30 September 2025'')" using raw by simp
  then have "normalize_date ?d2 raw = Some (str ''2025-09-30T00:00:00'')"
    by (simp add: normalize_date_def year_filling_def str_def)
  moreover have "t = Some ?T \<and> r = None \<and> g = None" using p1 e by simp
  ultimately show ?thesis using e p2 by simp
qed

end
